theory Spec2Isabelle
  imports Complex_Main "HOL-Library.Sublist"
begin

section \<open>Exceptions, notifier and command log\<close>

text \<open>
  The classes of Python exceptions the module distinguishes. \<open>GitCommandError\<close> is a
  subclass of \<open>GitError\<close>, \<open>TimeoutError\<close> of \<open>OSError\<close>; \<open>KeyError\<close> and
  \<open>OtherException\<close> stand for subclasses of \<open>Exception\<close> outside \<open>ANY_GIT_ERROR\<close>,
  \<open>KeyboardInterrupt\<close> for a \<open>BaseException\<close> that is no \<open>Exception\<close>.
\<close>

datatype exn_class =
    ODBError | GitError | InvalidGitRepositoryError | GitCommandNotFound | GitCommandError
  | OSError | IndexError | BufferError | TypeError | ValueError | AttributeError
  | AssertionError | TimeoutError
  | KeyError | StopIteration | OtherException | KeyboardInterrupt

datatype exn = Exn exn_class string

fun exn_kind :: "exn \<Rightarrow> exn_class" where
  "exn_kind (Exn k m) = k"

fun exn_str :: "exn \<Rightarrow> string" where
  "exn_str (Exn k m) = m"

text \<open>\<open>ANY_GIT_ERROR\<close> (lines 10-36 of repo.py), as an \<open>isinstance\<close> test.\<close>

fun any_git_error :: "exn_class \<Rightarrow> bool" where
  "any_git_error KeyError = False"
| "any_git_error StopIteration = False"
| "any_git_error OtherException = False"
| "any_git_error KeyboardInterrupt = False"
| "any_git_error k = True"

text \<open>\<open>except Exception\<close>.\<close>

fun is_Exception :: "exn_class \<Rightarrow> bool" where
  "is_Exception KeyboardInterrupt = False"
| "is_Exception k = True"

text \<open>An outcome that is an exception of the given class.\<close>

definition raises :: "exn_class \<Rightarrow> exn + 'a \<Rightarrow> bool" where
  "raises k r = (case r of Inl e \<Rightarrow> exn_kind e = k | Inr v \<Rightarrow> False)"

text \<open>
  What the module does to the outside is kept in a log, oldest entry first: the calls of
  the notifier \<open>io\<close> and every command sent to the version-control system that writes
  (with its arguments and whether it succeeded).
\<close>

datatype event =
    ToolError string
  | ToolWarning string
  | ToolOutput string
  | GitCmd string "string list" bool

text \<open>The commands sent to the version-control system, among the entries of a log.\<close>

fun is_git_cmd :: "event \<Rightarrow> bool" where
  "is_git_cmd (GitCmd c args ok) = True"
| "is_git_cmd ev = False"

section \<open>The repository object\<close>

text \<open>The constructor's arguments that stay fixed for the life of the object.\<close>

record config =
  root :: string
  aider_ignore_file :: "string option"
  subtree_only :: bool
  attribute_author :: bool
  attribute_committer :: bool
  attribute_commit_message_author :: bool
  attribute_commit_message_committer :: bool
  commit_prompt :: "string option"
  git_commit_verify :: bool
  primary_branch_name :: "string option"

text \<open>
  The mutable fields of \<open>GitRepo\<close>, the process environment \<open>os.environ\<close> and the log.
  Python sets are objects: \<open>heap\<close> maps an address to the contents of the set stored
  there (a duplicate-free list in insertion order; Python leaves the iteration order of
  a set open), \<open>tree_files\<close> maps a commit to the address of its cached set.
\<close>

record state =
  normalized_path :: "string \<rightharpoonup> string"
  tree_files :: "string \<rightharpoonup> nat"
  heap :: "nat \<rightharpoonup> string list"
  next_addr :: nat
  ignore_file_cache :: "string \<rightharpoonup> bool"
  aider_ignore_spec :: "string list option"
  aider_ignore_ts :: real
  aider_ignore_last_check :: real
  git_repo_error :: "exn option"
  primary_branch :: "string option"
  develop_branch :: "string option"
  environ :: "string \<rightharpoonup> string"
  log :: "event list"

definition tool_error :: "string \<Rightarrow> state \<Rightarrow> state" where
  "tool_error m st = st\<lparr>log := log st @ [ToolError m]\<rparr>"

definition tool_warning :: "string \<Rightarrow> state \<Rightarrow> state" where
  "tool_warning m st = st\<lparr>log := log st @ [ToolWarning m]\<rparr>"

definition tool_output :: "string \<Rightarrow> state \<Rightarrow> state" where
  "tool_output m st = st\<lparr>log := log st @ [ToolOutput m]\<rparr>"

definition git_cmd :: "string \<Rightarrow> string list \<Rightarrow> bool \<Rightarrow> state \<Rightarrow> state" where
  "git_cmd c args ok st = st\<lparr>log := log st @ [GitCmd c args ok]\<rparr>"

text \<open>A fresh object, as \<open>__init__\<close> leaves it before branch resolution.\<close>

definition init_state :: state where
  "init_state = \<lparr>normalized_path = Map.empty, tree_files = Map.empty, heap = Map.empty,
     next_addr = 0, ignore_file_cache = Map.empty, aider_ignore_spec = None,
     aider_ignore_ts = 0, aider_ignore_last_check = 0, git_repo_error = None,
     primary_branch = None, develop_branch = None, environ = Map.empty, log = []\<rparr>"

section \<open>Strings\<close>

text \<open>
  \<open>str.lower\<close>, \<open>in\<close> on strings and truthiness of an optional string. A Python
  \<open>str\<close> is a list of code points; a \<open>char\<close> is read as the code point of its number,
  so a \<open>string\<close> is a \<open>str\<close> of code points below 256 (Basic Latin and Latin-1), and
  the character tables below are Unicode's on that range. \<open>str.lower\<close> maps the capitals
  \<open>A\<close>-\<open>Z\<close> and U+00C0-U+00DE (but not the sign U+00D7) to the letter 32 places on
  and leaves every other code point below 256 alone.
\<close>

definition lower_char :: "char \<Rightarrow> char" where
  "lower_char c =
     (let n = (of_char c :: nat)
      in if (65 \<le> n \<and> n \<le> 90) \<or> (192 \<le> n \<and> n \<le> 222 \<and> n \<noteq> 215)
         then char_of (n + 32) else c)"

definition lower :: "string \<Rightarrow> string" where
  "lower s = map lower_char s"

fun contains :: "string \<Rightarrow> string \<Rightarrow> bool" where
  "contains sub [] = (sub = [])"
| "contains sub (c # s) = (prefix sub (c # s) \<or> contains sub s)"

fun truthy :: "string option \<Rightarrow> bool" where
  "truthy None = False"
| "truthy (Some s) = (s \<noteq> [])"

section \<open>What the version-control system answers about branches\<close>

text \<open>
  GitPython is a black box: each query the module makes is a field holding the query's
  outcome, an exception (\<open>Inl\<close>) or a value. The repository is not changed by anybody
  else while one operation runs, so a query asked twice gets the same answer.
\<close>

record branch_world =
  w_branches :: "exn + string list"
  w_active_branch :: "exn + string"
  w_head_object_hexsha :: "exn + string"

subsection \<open>\<open>get_current_branch\<close> (lines 518-532)\<close>

definition get_current_branch :: "branch_world \<Rightarrow> exn + string" where
  "get_current_branch w =
     (case w_active_branch w of
        Inr name \<Rightarrow> Inr name
      | Inl e \<Rightarrow>
          if exn_kind e = TypeError \<or> exn_kind e = AttributeError \<or> any_git_error (exn_kind e)
          then
            (if contains ''detached'' (lower (exn_str e)) \<or> exn_kind e = TypeError
             then (case w_head_object_hexsha w of
                     Inr h \<Rightarrow> Inr (take 7 h @ '' (Detached HEAD)'')
                   | Inl e' \<Rightarrow>
                       if is_Exception (exn_kind e')
                       then Inl (Exn ValueError
                              ''Could not determine current branch or commit (Detached HEAD).'')
                       else Inl e')
             else Inl (Exn ValueError (''Could not determine current branch: '' @ exn_str e)))
          else Inl e)"

subsection \<open>\<open>_determine_git_flow_branches\<close> (lines 126-164)\<close>

text \<open>
  The two assignments of the \<open>try\<close> body, once both queries have answered. An
  f-string prints \<open>None\<close> for an absent value.
\<close>

definition quote :: "string \<Rightarrow> string" where
  "quote s = [CHR 0x27] @ s @ [CHR 0x27]"

fun py_str :: "string option \<Rightarrow> string" where
  "py_str None = ''None''"
| "py_str (Some s) = s"

definition resolve_primary :: "config \<Rightarrow> string list \<Rightarrow> string \<Rightarrow> state \<Rightarrow> state" where
  "resolve_primary cfg branches current_branch st =
     (if (case primary_branch_name cfg of None \<Rightarrow> False | Some n \<Rightarrow> n \<in> set branches)
      then st\<lparr>primary_branch := primary_branch_name cfg\<rparr>
      else if ''main'' \<in> set branches then st\<lparr>primary_branch := Some ''main''\<rparr>
      else if ''master'' \<in> set branches then st\<lparr>primary_branch := Some ''master''\<rparr>
      else if ''develop'' \<in> set branches
      then tool_warning ''No 'main' or 'master' branch found. Using 'develop' as primary.''
             (st\<lparr>primary_branch := Some ''develop''\<rparr>)
      else tool_warning
             (''No 'main', 'master', or 'develop' branch found. Using current branch '' @
              quote current_branch @ '' as primary.'')
             (st\<lparr>primary_branch := Some current_branch\<rparr>))"

definition resolve_develop :: "string list \<Rightarrow> state \<Rightarrow> state" where
  "resolve_develop branches st =
     (if ''develop'' \<in> set branches then st\<lparr>develop_branch := Some ''develop''\<rparr>
      else
        (let st1 = st\<lparr>develop_branch := primary_branch st\<rparr> in
         if primary_branch st1 \<noteq> Some ''develop''
         then tool_warning
                (''No 'develop' branch found. Using primary branch '' @
                 quote (py_str (primary_branch st1)) @ '' as the development base.'') st1
         else st1))"

text \<open>
  The whole method. It returns the exception that leaves it, if any, and the object.
  \<open>"develop" in self.repo.branches\<close> of the handler is GitPython's search by name in
  the list of heads, and asks the repository for its branches a second time.
\<close>

definition determine_git_flow_branches ::
  "config \<Rightarrow> branch_world \<Rightarrow> state \<Rightarrow> exn option \<times> state" where
  "determine_git_flow_branches cfg w st =
     (case (case w_branches w of
              Inl e \<Rightarrow> Inl e
            | Inr branches \<Rightarrow>
                (case get_current_branch w of
                   Inl e \<Rightarrow> Inl e
                 | Inr current_branch \<Rightarrow> Inr (branches, current_branch))) of
        Inr (branches, current_branch) \<Rightarrow>
          (let st1 = resolve_primary cfg branches current_branch st;
               st2 = resolve_develop branches st1;
               st3 = tool_output (''Identified Primary Branch: '' @ py_str (primary_branch st2)) st2;
               st4 = tool_output (''Identified Develop Branch: '' @ py_str (develop_branch st3)) st3
           in (None, st4))
      | Inl e \<Rightarrow>
          if is_Exception (exn_kind e)
          then
            (let st1 = tool_error (''Error determining Git Flow branches: '' @ exn_str e @
                                   ''. Falling back to defaults.'') st;
                 st2 = st1\<lparr>primary_branch :=
                         (if truthy (primary_branch_name cfg) then primary_branch_name cfg
                          else Some ''main'')\<rparr>
             in (case w_branches w of
                   Inl e' \<Rightarrow> (Some e', st2)
                 | Inr branches \<Rightarrow>
                     (None, st2\<lparr>develop_branch :=
                              (if ''develop'' \<in> set branches then Some ''develop''
                               else primary_branch st2)\<rparr>)))
          else (Some e, st))"

subsection \<open>The resolution rule in the words of the specification\<close>

text \<open>
  Primary: the configured name if it is a branch, else \<open>main\<close>, else \<open>master\<close>,
  else \<open>develop\<close>, else the current branch. Develop: \<open>develop\<close> if it is a branch,
  else the primary. The last two choices of the primary come with a warning.
\<close>

definition spec_primary :: "string option \<Rightarrow> string list \<Rightarrow> string \<Rightarrow> string" where
  "spec_primary configured branches current =
     (case (case configured of None \<Rightarrow> None
            | Some n \<Rightarrow> if n \<in> set branches then Some n else None) of
        Some n \<Rightarrow> n
      | None \<Rightarrow>
          if ''main'' \<in> set branches then ''main''
          else if ''master'' \<in> set branches then ''master''
          else if ''develop'' \<in> set branches then ''develop''
          else current)"

definition spec_develop :: "string list \<Rightarrow> string \<Rightarrow> string" where
  "spec_develop branches primary = (if ''develop'' \<in> set branches then ''develop'' else primary)"

definition spec_primary_warns :: "string option \<Rightarrow> string list \<Rightarrow> bool" where
  "spec_primary_warns configured branches =
     ((case configured of None \<Rightarrow> True | Some n \<Rightarrow> n \<notin> set branches)
      \<and> ''main'' \<notin> set branches \<and> ''master'' \<notin> set branches)"

definition is_warning :: "event \<Rightarrow> bool" where
  "is_warning ev = (case ev of ToolWarning m \<Rightarrow> True | _ \<Rightarrow> False)"

text \<open>The entries a run appended to the log.\<close>

definition new_log :: "state \<Rightarrow> state \<Rightarrow> event list" where
  "new_log st st' = drop (length (log st)) (log st')"

section \<open>Paths\<close>

text \<open>
  \<open>pathlib\<close> on a POSIX system. A path is its root (empty, \<open>/\<close> or \<open>//\<close>) and its
  components; parsing drops empty components and \<open>.\<close>, keeps \<open>..\<close>, and takes exactly
  two leading slashes as the root \<open>//\<close>.
\<close>

record ppath =
  p_root :: string
  p_parts :: "string list"

fun split_on :: "char \<Rightarrow> string \<Rightarrow> string list" where
  "split_on sep [] = [[]]"
| "split_on sep (c # cs) =
     (if c = sep then [] # split_on sep cs
      else (case split_on sep cs of [] \<Rightarrow> [[c]] | x # xs \<Rightarrow> (c # x) # xs))"

definition Path :: "string \<Rightarrow> ppath" where
  "Path s =
     \<lparr>p_root = (let n = length (takeWhile (\<lambda>c. c = CHR ''/'') s)
                in if n = 0 then [] else if n = 2 then ''//'' else ''/''),
      p_parts = filter (\<lambda>c. c \<noteq> [] \<and> c \<noteq> ''.'') (split_on CHR ''/'' s)\<rparr>"

text \<open>\<open>a / s\<close>: an absolute right operand replaces the left one.\<close>

definition truediv :: "ppath \<Rightarrow> string \<Rightarrow> ppath" where
  "truediv a s =
     (let b = Path s in
      if p_root b \<noteq> [] then b else \<lparr>p_root = p_root a, p_parts = p_parts a @ p_parts b\<rparr>)"

text \<open>\<open>a.relative_to(b)\<close> compares components only; it never looks at the file system.\<close>

definition relative_to :: "ppath \<Rightarrow> ppath \<Rightarrow> exn + ppath" where
  "relative_to a b =
     (if p_root a = p_root b \<and> prefix (p_parts b) (p_parts a)
      then Inr \<lparr>p_root = [], p_parts = drop (length (p_parts b)) (p_parts a)\<rparr>
      else Inl (Exn ValueError ''path is not in the subpath of the root''))"

fun join_slash :: "string list \<Rightarrow> string" where
  "join_slash [] = []"
| "join_slash [x] = x"
| "join_slash (x # y # ys) = x @ ''/'' @ join_slash (y # ys)"

definition str_path :: "ppath \<Rightarrow> string" where
  "str_path p = (if p_root p = [] \<and> p_parts p = [] then ''.'' else p_root p @ join_slash (p_parts p))"

text \<open>\<open>p.parents\<close>, nearest first, and \<open>p.parents\<close> with \<open>p\<close> itself.\<close>

definition parents :: "ppath \<Rightarrow> ppath list" where
  "parents p = map (\<lambda>n. p\<lparr>p_parts := take n (p_parts p)\<rparr>) (rev [0..<length (p_parts p)])"

subsection \<open>\<open>normalize_path\<close> (lines 385-393)\<close>

text \<open>The computation of line 391.\<close>

definition normalize_raw :: "config \<Rightarrow> string \<Rightarrow> exn + string" where
  "normalize_raw cfg path =
     (case relative_to (truediv (Path (root cfg)) path) (Path (root cfg)) of
        Inl e \<Rightarrow> Inl e
      | Inr p \<Rightarrow> Inr (str_path p))"

definition normalize_path :: "config \<Rightarrow> string \<Rightarrow> state \<Rightarrow> (exn + string) \<times> state" where
  "normalize_path cfg path st =
     (if truthy (normalized_path st path) then (Inr (py_str (normalized_path st path)), st)
      else (case normalize_raw cfg path of
              Inl e \<Rightarrow> (Inl e, st)
            | Inr res \<Rightarrow> (Inr res, st\<lparr>normalized_path := (normalized_path st)(path \<mapsto> res)\<rparr>)))"

text \<open>
  The memo only ever holds results of line 391 under the same root: this is what the
  object's memo satisfies from its creation on.
\<close>

definition memo_ok :: "config \<Rightarrow> state \<Rightarrow> bool" where
  "memo_ok cfg st = (\<forall>p r. normalized_path st p = Some r \<longrightarrow> normalize_raw cfg p = Inr r)"

text \<open>
  An absolute path that does not lie, component by component, under the root: the
  paths that line 391 cannot express relative to the root.
\<close>

definition abs_outside_root :: "config \<Rightarrow> string \<Rightarrow> bool" where
  "abs_outside_root cfg P =
     (p_root (Path P) \<noteq> [] \<and>
      \<not> (p_root (Path P) = p_root (Path (root cfg))
         \<and> prefix (p_parts (Path (root cfg))) (p_parts (Path P))))"

text \<open>
  The specification's notion of a path outside the root, for a path given relative to
  the root or absolute: where the path leads once each \<open>..\<close> has cancelled the
  component before it (symbolic links aside).
\<close>

fun collapse :: "string list \<Rightarrow> string list \<Rightarrow> string list" where
  "collapse acc [] = rev acc"
| "collapse acc (c # cs) =
     (if c = ''..'' then collapse (tl acc) cs else collapse (c # acc) cs)"

definition spec_outside_root :: "config \<Rightarrow> string \<Rightarrow> bool" where
  "spec_outside_root cfg P =
     (let t = truediv (Path (root cfg)) P in
      \<not> (p_root t = p_root (Path (root cfg))
         \<and> prefix (collapse [] (p_parts (Path (root cfg)))) (collapse [] (p_parts t))))"

section \<open>The ignore filter\<close>

text \<open>
  What the file system, the clock and the \<open>pathspec\<close> library answer during one call.
  \<open>w_match_file lines f\<close> is \<open>PathSpec.from_lines(GitWildMatchPattern, lines).match_file(f)\<close>;
  compiling the lines is taken to succeed. The clock is read as one instant per call:
  a loop over many files does not cross the one-second throttle in its middle.
\<close>

record fs_world =
  w_now :: real
  w_cwd :: "exn + string"
  w_root_resolved :: string
  w_ignore_is_file :: bool
  w_ignore_mtime :: real
  w_ignore_read :: "exn + string list"
  w_match_file :: "string list \<Rightarrow> string \<Rightarrow> bool"

subsection \<open>\<open>refresh_aider_ignore\<close> (lines 395-416)\<close>

definition refresh_aider_ignore :: "config \<Rightarrow> fs_world \<Rightarrow> state \<Rightarrow> exn option \<times> state" where
  "refresh_aider_ignore cfg w st =
     (if aider_ignore_file cfg = None then (None, st)
      else if w_now w - aider_ignore_last_check st < 1 then (None, st)
      else
        (let st1 = st\<lparr>aider_ignore_last_check := w_now w\<rparr> in
         if \<not> w_ignore_is_file w then (None, st1)
         else if w_ignore_mtime w \<noteq> aider_ignore_ts st1
         then
           (let st2 = st1\<lparr>aider_ignore_ts := w_ignore_mtime w, ignore_file_cache := Map.empty\<rparr>
            in (case w_ignore_read w of
                  Inl e \<Rightarrow> (Some e, st2)
                | Inr lines \<Rightarrow> (None, st2\<lparr>aider_ignore_spec := Some lines\<rparr>)))
         else (None, st1)))"

subsection \<open>\<open>ignored_file_raw\<close> (lines 437-460)\<close>

text \<open>Lines 452-460, after the subtree test.\<close>

definition ignored_by_spec :: "config \<Rightarrow> fs_world \<Rightarrow> string \<Rightarrow> state \<Rightarrow> (exn + bool) \<times> state" where
  "ignored_by_spec cfg w fname st =
     (if aider_ignore_file cfg = None \<or> \<not> w_ignore_is_file w then (Inr False, st)
      else
        (case normalize_path cfg fname st of
           (Inl e, st1) \<Rightarrow> if exn_kind e = ValueError then (Inr True, st1) else (Inl e, st1)
         | (Inr fname', st1) \<Rightarrow>
             (case aider_ignore_spec st1 of
                None \<Rightarrow> (Inl (Exn AttributeError
                           ''NoneType object has no attribute match_file''), st1)
              | Some lines \<Rightarrow> (Inr (w_match_file w lines fname'), st1))))"

definition ignored_file_raw :: "config \<Rightarrow> fs_world \<Rightarrow> string \<Rightarrow> state \<Rightarrow> (exn + bool) \<times> state" where
  "ignored_file_raw cfg w fname st =
     (if subtree_only cfg
      then
        (case normalize_path cfg fname st of
           (Inl e, st1) \<Rightarrow> if exn_kind e = ValueError then (Inr True, st1) else (Inl e, st1)
         | (Inr fname', st1) \<Rightarrow>
             (case w_cwd w of
                Inl e \<Rightarrow> if exn_kind e = ValueError then (Inr True, st1) else (Inl e, st1)
              | Inr cwd \<Rightarrow>
                  (case relative_to (Path cwd) (Path (w_root_resolved w)) of
                     Inl e \<Rightarrow> (Inr True, st1)
                   | Inr cwd_path \<Rightarrow>
                       if cwd_path \<notin> set (parents (Path fname')) \<and> Path fname' \<noteq> cwd_path
                       then (Inr True, st1)
                       else ignored_by_spec cfg w fname st1)))
      else ignored_by_spec cfg w fname st)"

subsection \<open>\<open>ignored_file\<close> (lines 427-435)\<close>

definition ignored_file :: "config \<Rightarrow> fs_world \<Rightarrow> string \<Rightarrow> state \<Rightarrow> (exn + bool) \<times> state" where
  "ignored_file cfg w fname st =
     (case refresh_aider_ignore cfg w st of
        (Some e, st1) \<Rightarrow> (Inl e, st1)
      | (None, st1) \<Rightarrow>
          (case ignore_file_cache st1 fname of
             Some r \<Rightarrow> (Inr r, st1)
           | None \<Rightarrow>
               (case ignored_file_raw cfg w fname st1 of
                  (Inl e, st2) \<Rightarrow> (Inl e, st2)
                | (Inr r, st2) \<Rightarrow>
                    (Inr r, st2\<lparr>ignore_file_cache := (ignore_file_cache st2)(fname \<mapsto> r)\<rparr>))))"

section \<open>Tracked files\<close>

text \<open>
  What GitPython answers during one call of \<open>get_tracked_files\<close>: the head commit
  (its hexsha; \<open>ValueError\<close> when the repository has no commit yet), the traversal of
  that commit's tree (raising at once, or an iterator whose calls of \<open>next\<close> yield the
  listed outcomes in turn and then \<open>StopIteration\<close>), and the paths of the index.
\<close>

datatype tree_item = Item string string | NextRaises exn

record tree_world =
  w_head_commit :: "exn + string"
  w_traverse :: "exn + tree_item list"
  w_index_entries :: "exn + string list"

text \<open>Set objects: \<open>set()\<close> with given contents, and \<open>s.add(x)\<close>.\<close>

definition alloc :: "string list \<Rightarrow> state \<Rightarrow> nat \<times> state" where
  "alloc xs st =
     (next_addr st, st\<lparr>heap := (heap st)(next_addr st \<mapsto> xs), next_addr := Suc (next_addr st)\<rparr>)"

definition contents :: "state \<Rightarrow> nat \<Rightarrow> string list" where
  "contents st a = (case heap st a of None \<Rightarrow> [] | Some xs \<Rightarrow> xs)"

definition set_add :: "nat \<Rightarrow> string \<Rightarrow> state \<Rightarrow> state" where
  "set_add a x st =
     (if x \<in> set (contents st a) then st else st\<lparr>heap := (heap st)(a \<mapsto> contents st a @ [x])\<rparr>)"

subsection \<open>\<open>get_tracked_files\<close> (lines 328-383)\<close>

text \<open>The \<open>while True\<close> loop of lines 350-364 over the iterator's outcomes.\<close>

fun traverse_loop :: "tree_item list \<Rightarrow> nat \<Rightarrow> state \<Rightarrow> exn option \<times> state" where
  "traverse_loop [] files st = (None, st)"
| "traverse_loop (Item ty path # rest) files st =
     traverse_loop rest files (if ty = ''blob'' then set_add files path st else st)"
| "traverse_loop (NextRaises e # rest) files st =
     (if exn_kind e = IndexError
      then traverse_loop rest files
             (tool_warning
                ''GitRepo: Index error encountered while reading git tree object. Skipping.'' st)
      else if exn_kind e = StopIteration then (None, st)
      else (Some e, st))"

text \<open>
  \<open>set(self.normalize_path(path) for path in files)\<close> and
  \<open>files.update(self.normalize_path(path) for path in staged_files)\<close>: the generator
  is consumed one path at a time, so what was normalized before an exception has
  already been added.
\<close>

fun update_normalized :: "config \<Rightarrow> string list \<Rightarrow> nat \<Rightarrow> state \<Rightarrow> exn option \<times> state" where
  "update_normalized cfg [] files st = (None, st)"
| "update_normalized cfg (path # rest) files st =
     (case normalize_path cfg path st of
        (Inl e, st1) \<Rightarrow> (Some e, st1)
      | (Inr n, st1) \<Rightarrow> update_normalized cfg rest files (set_add files n st1))"

text \<open>Line 381: the list comprehension over the set, calling \<open>ignored_file\<close> on each name.\<close>

fun filter_ignored ::
  "config \<Rightarrow> fs_world \<Rightarrow> string list \<Rightarrow> state \<Rightarrow> (exn + string list) \<times> state" where
  "filter_ignored cfg fw [] st = (Inr [], st)"
| "filter_ignored cfg fw (fname # rest) st =
     (case ignored_file cfg fw fname st of
        (Inl e, st1) \<Rightarrow> (Inl e, st1)
      | (Inr ign, st1) \<Rightarrow>
          (case filter_ignored cfg fw rest st1 of
             (Inl e, st2) \<Rightarrow> (Inl e, st2)
           | (Inr res, st2) \<Rightarrow> (Inr (if ign then res else fname # res), st2)))"

text \<open>Lines 373-383: the staged files are added to the set at address \<open>files\<close>.\<close>

definition add_staged_and_filter ::
  "config \<Rightarrow> fs_world \<Rightarrow> tree_world \<Rightarrow> nat \<Rightarrow> state \<Rightarrow> (exn + string list) \<times> state" where
  "add_staged_and_filter cfg fw tw files st =
     (case (case w_index_entries tw of
              Inl e \<Rightarrow> (Some e, st)
            | Inr staged_files \<Rightarrow> update_normalized cfg staged_files files st) of
        (Some e, st1) \<Rightarrow>
          if any_git_error (exn_kind e)
          then filter_ignored cfg fw (contents st1 files)
                 (tool_error (''Unable to read staged files: '' @ exn_str e) st1)
          else (Inl e, st1)
      | (None, st1) \<Rightarrow> filter_ignored cfg fw (contents st1 files) st1)"

text \<open>The handlers of lines 336-340 and 365-369.\<close>

definition unable_to_list :: "exn \<Rightarrow> state \<Rightarrow> (exn + string list) \<times> state" where
  "unable_to_list e st =
     (if any_git_error (exn_kind e)
      then (Inr [],
            tool_output ''Is your git repo corrupted?''
              (tool_error (''Unable to list files in git repo: '' @ exn_str e)
                 (st\<lparr>git_repo_error := Some e\<rparr>)))
      else (Inl e, st))"

text \<open>
  Lines 342-383 for a head commit (or none). On a cache hit \<open>files\<close> is the address of
  the cached set itself; on a miss the cache receives a copy, \<open>set(files)\<close>, at a new
  address.
\<close>

definition tracked_files_of ::
  "config \<Rightarrow> fs_world \<Rightarrow> tree_world \<Rightarrow> string option \<Rightarrow> state \<Rightarrow> (exn + string list) \<times> state" where
  "tracked_files_of cfg fw tw commit st =
     (case alloc [] st of (files, st0) \<Rightarrow>
        (case commit of
           None \<Rightarrow> add_staged_and_filter cfg fw tw files st0
         | Some c \<Rightarrow>
             (case tree_files st0 c of
                Some cached \<Rightarrow> add_staged_and_filter cfg fw tw cached st0
              | None \<Rightarrow>
                  (case (case w_traverse tw of
                           Inl e \<Rightarrow> (Some e, st0)
                         | Inr items \<Rightarrow> traverse_loop items files st0) of
                     (Some e, st1) \<Rightarrow> unable_to_list e st1
                   | (None, st1) \<Rightarrow>
                       (case alloc [] st1 of (files', st2) \<Rightarrow>
                          (case update_normalized cfg (contents st2 files) files' st2 of
                             (Some e, st3) \<Rightarrow> (Inl e, st3)
                           | (None, st3) \<Rightarrow>
                               (case alloc (contents st3 files') st3 of (copy, st4) \<Rightarrow>
                                  add_staged_and_filter cfg fw tw files'
                                    (st4\<lparr>tree_files := (tree_files st4)(c \<mapsto> copy)\<rparr>))))))))"

text \<open>
  The method. \<open>self.repo\<close> is set by the constructor, so the test of line 329 never
  fires on a constructed object and is left out.
\<close>

definition get_tracked_files ::
  "config \<Rightarrow> fs_world \<Rightarrow> tree_world \<Rightarrow> state \<Rightarrow> (exn + string list) \<times> state" where
  "get_tracked_files cfg fw tw st =
     (case w_head_commit tw of
        Inr c \<Rightarrow> tracked_files_of cfg fw tw (Some c) st
      | Inl e \<Rightarrow>
          if exn_kind e = ValueError then tracked_files_of cfg fw tw None st
          else unable_to_list e st)"

subsection \<open>The tracked files in the words of the specification\<close>

text \<open>
  The blob paths of the head commit's tree (none without a head commit) and the staged
  index paths, each normalized, minus the paths for which \<open>is_ignored\<close> is true.
\<close>

definition blob_paths :: "tree_item list \<Rightarrow> string list" where
  "blob_paths items =
     concat (map (\<lambda>it. case it of Item ty path \<Rightarrow> if ty = ''blob'' then [path] else []
                       | NextRaises e \<Rightarrow> []) items)"

definition spec_tracked_files :: "config \<Rightarrow> fs_world \<Rightarrow> tree_world \<Rightarrow> state \<Rightarrow> string set" where
  "spec_tracked_files cfg fw tw st =
     (let tree = (case w_head_commit tw of
                    Inl e \<Rightarrow> []
                  | Inr c \<Rightarrow> (case w_traverse tw of Inl e \<Rightarrow> [] | Inr items \<Rightarrow> blob_paths items));
          staged = (case w_index_entries tw of Inl e \<Rightarrow> [] | Inr paths \<Rightarrow> paths);
          normalized = concat (map (\<lambda>p. case normalize_raw cfg p of Inl e \<Rightarrow> [] | Inr n \<Rightarrow> [n])
                                 (tree @ staged))
      in set (filter (\<lambda>n. fst (ignored_file cfg fw n st) \<noteq> Inr True) normalized))"

section \<open>Committing\<close>

text \<open>
  A backend that can draft a commit message: \<open>token_count(messages)\<close>,
  \<open>info.get("max_input_tokens")\<close> and \<open>simple_send_with_retries(messages)\<close>, the
  messages being the system prompt and the user content.
\<close>

record model =
  m_token_count :: "string \<Rightarrow> string \<Rightarrow> nat"
  m_max_input_tokens :: "nat option"
  m_send :: "string \<Rightarrow> string \<Rightarrow> exn + string option"

text \<open>
  What the repository, the backends and the helper \<open>utils.safe_abs_path\<close> answer
  during one call of \<open>commit\<close>. \<open>w_head_after\<close> is the hexsha of the head once the
  commit command has run; \<open>w_commit_system\<close> is \<open>prompts.commit_system\<close>.
\<close>

record commit_world =
  w_is_dirty :: "exn + bool"
  w_active :: "exn + string"
  w_has_commits :: "exn + bool"
  w_diff :: "string list \<Rightarrow> exn + string"
  w_models :: "model list option"
  w_commit_system :: string
  w_add :: "string \<Rightarrow> exn option"
  w_user_name :: "exn + string"
  w_commit :: "string list \<Rightarrow> exn option"
  w_head_after :: "exn + string"
  w_safe_abs_path :: "string \<Rightarrow> string"

subsection \<open>\<open>path_in_repo\<close> (lines 462-469)\<close>

definition path_in_repo ::
  "config \<Rightarrow> fs_world \<Rightarrow> tree_world \<Rightarrow> string \<Rightarrow> state \<Rightarrow> (exn + bool option) \<times> state" where
  "path_in_repo cfg fw tw path st =
     (if path = [] then (Inr None, st)
      else
        (case get_tracked_files cfg fw tw st of
           (Inl e, st1) \<Rightarrow> (Inl e, st1)
         | (Inr tracked_files, st1) \<Rightarrow>
             (case normalize_path cfg path st1 of
                (Inl e, st2) \<Rightarrow> (Inl e, st2)
              | (Inr n, st2) \<Rightarrow> (Inr (Some (n \<in> set tracked_files)), st2))))"

subsection \<open>\<open>get_diffs\<close> (lines 278-314)\<close>

text \<open>Lines 281-290.\<close>

definition current_branch_has_commits :: "commit_world \<Rightarrow> exn + bool" where
  "current_branch_has_commits cw =
     (case w_active cw of
        Inl e \<Rightarrow> if exn_kind e = TypeError \<or> any_git_error (exn_kind e) then Inr False else Inl e
      | Inr active_branch \<Rightarrow>
          (case w_has_commits cw of
             Inl e \<Rightarrow> if any_git_error (exn_kind e) then Inr False else Inl e
           | Inr b \<Rightarrow> Inr b))"

text \<open>
  The loop of lines 296-298. The source's variable \<open>diffs\<close> is \<open>difftext\<close> here, its
  name being taken by a constant of the library.
\<close>

fun added_markers ::
  "config \<Rightarrow> fs_world \<Rightarrow> tree_world \<Rightarrow> string list \<Rightarrow> string \<Rightarrow> state \<Rightarrow> (exn + string) \<times> state" where
  "added_markers cfg fw tw [] difftext st = (Inr difftext, st)"
| "added_markers cfg fw tw (fname # rest) difftext st =
     (case path_in_repo cfg fw tw fname st of
        (Inl e, st1) \<Rightarrow> (Inl e, st1)
      | (Inr r, st1) \<Rightarrow>
          added_markers cfg fw tw rest
            (if r = Some True then difftext else difftext @ ''Added '' @ fname @ [CHR 0x0A]) st1)"

text \<open>Lines 300-314.\<close>

definition diff_text :: "commit_world \<Rightarrow> bool \<Rightarrow> string list \<Rightarrow> string \<Rightarrow> exn + string" where
  "diff_text cw has_commits fnames difftext =
     (if has_commits
      then (case w_diff cw ([''HEAD'', ''--''] @ fnames) of
              Inl e \<Rightarrow> Inl e
            | Inr d \<Rightarrow> Inr (difftext @ d))
      else (case w_diff cw ([''--cached'', ''--''] @ fnames) of
              Inl e \<Rightarrow> Inl e
            | Inr d1 \<Rightarrow>
                (case w_diff cw ([''--''] @ fnames) of
                   Inl e \<Rightarrow> Inl e
                 | Inr d2 \<Rightarrow> Inr (difftext @ d1 @ d2))))"

definition get_diffs ::
  "config \<Rightarrow> fs_world \<Rightarrow> tree_world \<Rightarrow> commit_world \<Rightarrow> string list option \<Rightarrow> state
     \<Rightarrow> (exn + string option) \<times> state" where
  "get_diffs cfg fw tw cw fnames_opt st =
     (case current_branch_has_commits cw of
        Inl e \<Rightarrow> (Inl e, st)
      | Inr has_commits \<Rightarrow>
          (let fnames = (case fnames_opt of None \<Rightarrow> [] | Some fs \<Rightarrow> fs) in
           case added_markers cfg fw tw fnames [] st of
             (Inl e, st1) \<Rightarrow> (Inl e, st1)
           | (Inr difftext, st1) \<Rightarrow>
               (case diff_text cw has_commits fnames difftext of
                  Inr d \<Rightarrow> (Inr (Some d), st1)
                | Inl e \<Rightarrow>
                    if any_git_error (exn_kind e)
                    then (Inr None, tool_error (''Unable to diff: '' @ exn_str e) st1)
                    else (Inl e, st1))))"

subsection \<open>\<open>get_commit_message\<close> (lines 244-276)\<close>

text \<open>
  \<open>str.strip()\<close>: the white space below 256 is U+0009-U+000D, U+001C-U+0020, U+0085
  and U+00A0.
\<close>

definition is_space :: "char \<Rightarrow> bool" where
  "is_space c =
     (let n = (of_char c :: nat)
      in (9 \<le> n \<and> n \<le> 13) \<or> (28 \<le> n \<and> n \<le> 32) \<or> n = 133 \<or> n = 160)"

definition strip :: "string \<Rightarrow> string" where
  "strip s = rev (dropWhile is_space (rev (dropWhile is_space s)))"

text \<open>
  The loop of lines 259-266 with the current value of \<open>commit_message\<close>: a backend whose
  budget is exceeded is skipped, the first non-empty answer ends the loop.
\<close>

fun ask_models :: "model list \<Rightarrow> string \<Rightarrow> string \<Rightarrow> string option \<Rightarrow> exn + string option" where
  "ask_models [] sys content commit_message = Inr commit_message"
| "ask_models (m # ms) sys content commit_message =
     (let num_tokens = m_token_count m sys content;
          max_tokens = (case m_max_input_tokens m of None \<Rightarrow> 0 | Some k \<Rightarrow> k)
      in if max_tokens \<noteq> 0 \<and> num_tokens > max_tokens
         then ask_models ms sys content commit_message
         else (case m_send m sys content of
                 Inl e \<Rightarrow> Inl e
               | Inr answer \<Rightarrow>
                   if truthy answer then Inr answer else ask_models ms sys content answer))"

definition get_commit_message ::
  "config \<Rightarrow> commit_world \<Rightarrow> string \<Rightarrow> string option \<Rightarrow> state \<Rightarrow> (exn + string option) \<times> state" where
  "get_commit_message cfg cw difftext context st =
     (let difftext' = ''# Diffs:'' @ [CHR 0x0A] @ difftext;
          content = (if truthy context then py_str context @ [CHR 0x0A] else []) @ difftext';
          system_content = (if truthy (commit_prompt cfg) then py_str (commit_prompt cfg)
                            else w_commit_system cw)
      in case (case w_models cw of
                 None \<Rightarrow> Inl (Exn TypeError ''NoneType object is not iterable'')
               | Some models \<Rightarrow> ask_models models system_content content None) of
           Inl e \<Rightarrow> (Inl e, st)
         | Inr commit_message \<Rightarrow>
             if \<not> truthy commit_message
             then (Inr None, tool_error ''Failed to generate commit message!'' st)
             else
               (let cm = strip (py_str commit_message) in
                if cm \<noteq> [] \<and> hd cm = CHR 0x22 \<and> last cm = CHR 0x22
                then (Inr (Some (strip (butlast (tl cm)))), st)
                else (Inr (Some cm), st)))"

subsection \<open>\<open>get_head_commit_sha\<close> (lines 498-510) after the commit\<close>

definition get_head_commit_sha_short :: "commit_world \<Rightarrow> exn + string option" where
  "get_head_commit_sha_short cw =
     (case w_head_after cw of
        Inr hexsha \<Rightarrow> Inr (Some (take 7 hexsha))
      | Inl e \<Rightarrow>
          if exn_kind e = ValueError \<or> any_git_error (exn_kind e) then Inr None else Inl e)"

subsection \<open>\<open>commit\<close> (lines 166-236)\<close>

text \<open>Lines 179-182: a string is put in front of the message; \<open>None\<close> cannot take it.\<close>

definition attribute_message :: "config \<Rightarrow> bool \<Rightarrow> string option \<Rightarrow> exn + string option" where
  "attribute_message cfg aider_edits commit_message =
     (if aider_edits \<and> attribute_commit_message_author cfg
      then (case commit_message of
              None \<Rightarrow> Inl (Exn TypeError ''can only concatenate str (not NoneType) to str'')
            | Some m \<Rightarrow> Inr (Some (''aider: '' @ m)))
      else if attribute_commit_message_committer cfg
      then (case commit_message of
              None \<Rightarrow> Inl (Exn TypeError ''can only concatenate str (not NoneType) to str'')
            | Some m \<Rightarrow> Inr (Some (''aider: '' @ m)))
      else Inr commit_message)"

text \<open>The loop of lines 196-200.\<close>

fun add_files :: "commit_world \<Rightarrow> string list \<Rightarrow> state \<Rightarrow> exn option \<times> state" where
  "add_files cw [] st = (None, st)"
| "add_files cw (fname # rest) st =
     (case w_add cw fname of
        None \<Rightarrow> add_files cw rest (git_cmd ''add'' [fname] True st)
      | Some e \<Rightarrow>
          if any_git_error (exn_kind e)
          then add_files cw rest
                 (tool_error (''Unable to add '' @ fname @ '': '' @ exn_str e)
                    (git_cmd ''add'' [fname] False st))
          else (Some e, git_cmd ''add'' [fname] False st))"

text \<open>\<open>os.environ\<close>: assignment, and \<open>del\<close>, which raises on a missing key.\<close>

definition env_set :: "string \<Rightarrow> string \<Rightarrow> state \<Rightarrow> state" where
  "env_set k v st = st\<lparr>environ := (environ st)(k \<mapsto> v)\<rparr>"

definition env_del :: "string \<Rightarrow> state \<Rightarrow> exn option \<times> state" where
  "env_del k st =
     (if environ st k = None then (Some (Exn KeyError k), st)
      else (None, st\<lparr>environ := (environ st)(k := None)\<rparr>))"

definition env_restore :: "string \<Rightarrow> string option \<Rightarrow> state \<Rightarrow> exn option \<times> state" where
  "env_restore k original st =
     (case original of Some v \<Rightarrow> (None, env_set k v st) | None \<Rightarrow> env_del k st)"

text \<open>The \<open>finally\<close> block, lines 223-236.\<close>

definition restore_env ::
  "config \<Rightarrow> bool \<Rightarrow> string option \<Rightarrow> string option \<Rightarrow> state \<Rightarrow> exn option \<times> state" where
  "restore_env cfg aider_edits original_committer_name_env original_author_name_env st =
     (case (if attribute_committer cfg
            then env_restore ''GIT_COMMITTER_NAME'' original_committer_name_env st
            else (None, st)) of
        (Some e, st1) \<Rightarrow> (Some e, st1)
      | (None, st1) \<Rightarrow>
          if aider_edits \<and> attribute_author cfg
          then env_restore ''GIT_AUTHOR_NAME'' original_author_name_env st1
          else (None, st1))"

text \<open>The \<open>try\<close> block, lines 216-222, before the \<open>finally\<close>.\<close>

definition try_commit ::
  "commit_world \<Rightarrow> string list \<Rightarrow> string \<Rightarrow> state
     \<Rightarrow> (exn + (string option \<times> string) option) \<times> state" where
  "try_commit cw cmd commit_message st =
     (case w_commit cw cmd of
        Some e \<Rightarrow>
          if any_git_error (exn_kind e)
          then (Inr None, tool_error (''Unable to commit: '' @ exn_str e)
                            (git_cmd ''commit'' cmd False st))
          else (Inl e, git_cmd ''commit'' cmd False st)
      | None \<Rightarrow>
          (let st1 = git_cmd ''commit'' cmd True st in
           case get_head_commit_sha_short cw of
             Inl e \<Rightarrow> (Inl e, st1)
           | Inr commit_hash \<Rightarrow>
               (Inr (Some (commit_hash, commit_message)),
                tool_output (''Commit '' @ py_str commit_hash @ '' '' @ commit_message) st1)))"

text \<open>
  Lines 206-236: the overrides of the committer and author names, the \<open>try\<close> and the
  \<open>finally\<close>. An exception of the \<open>finally\<close> block would replace the outcome of the
  \<open>try\<close>.
\<close>

definition commit_under_overrides ::
  "config \<Rightarrow> commit_world \<Rightarrow> bool \<Rightarrow> string \<Rightarrow> string list \<Rightarrow> string \<Rightarrow> state
     \<Rightarrow> (exn + (string option \<times> string) option) \<times> state" where
  "commit_under_overrides cfg cw aider_edits original_user_name cmd commit_message st =
     (let original_committer_name_env = environ st ''GIT_COMMITTER_NAME'';
          committer_name = original_user_name @ '' (aider)'';
          st2 = (if attribute_committer cfg
                 then env_set ''GIT_COMMITTER_NAME'' committer_name st
                 else st);
          original_author_name_env = environ st2 ''GIT_AUTHOR_NAME'';
          st3 = (if aider_edits \<and> attribute_author cfg
                 then env_set ''GIT_AUTHOR_NAME'' committer_name st2
                 else st2)
      in case try_commit cw cmd commit_message st3 of
           (res, st4) \<Rightarrow>
             (case restore_env cfg aider_edits original_committer_name_env
                     original_author_name_env st4 of
                (Some e, st5) \<Rightarrow> (Inl e, st5)
              | (None, st5) \<Rightarrow> (res, st5)))"

text \<open>Lines 184-203: the placeholder, the command line and the staging.\<close>

definition final_message :: "string option \<Rightarrow> string" where
  "final_message attributed =
     (if truthy attributed then py_str attributed else ''(no commit message provided)'')"

definition abs_fnames :: "config \<Rightarrow> commit_world \<Rightarrow> string list option \<Rightarrow> string list" where
  "abs_fnames cfg cw fnames_opt =
     (case fnames_opt of
        None \<Rightarrow> []
      | Some fs \<Rightarrow> map (\<lambda>fn. w_safe_abs_path cw (str_path (truediv (Path (root cfg)) fn))) fs)"

definition commit_cmd :: "config \<Rightarrow> string \<Rightarrow> string list \<Rightarrow> string list" where
  "commit_cmd cfg commit_message fnames =
     [''-m'', commit_message]
     @ (if git_commit_verify cfg then [] else [''--no-verify''])
     @ (if fnames \<noteq> [] then [''--''] @ fnames else [''-a''])"

text \<open>Lines 179-236: everything after the message has been chosen.\<close>

definition commit_with_message ::
  "config \<Rightarrow> commit_world \<Rightarrow> string list option \<Rightarrow> bool \<Rightarrow> string option \<Rightarrow> state
     \<Rightarrow> (exn + (string option \<times> string) option) \<times> state" where
  "commit_with_message cfg cw fnames_opt aider_edits chosen st =
     (case attribute_message cfg aider_edits chosen of
        Inl e \<Rightarrow> (Inl e, st)
      | Inr attributed \<Rightarrow>
          (case (if abs_fnames cfg cw fnames_opt \<noteq> []
                 then add_files cw (abs_fnames cfg cw fnames_opt) st
                 else (None, st)) of
             (Some e, st1) \<Rightarrow> (Inl e, st1)
           | (None, st1) \<Rightarrow>
               (case w_user_name cw of
                  Inl e \<Rightarrow> (Inl e, st1)
                | Inr original_user_name \<Rightarrow>
                    commit_under_overrides cfg cw aider_edits original_user_name
                      (commit_cmd cfg (final_message attributed) (abs_fnames cfg cw fnames_opt))
                      (final_message attributed) st1)))"

text \<open>The method.\<close>

definition commit ::
  "config \<Rightarrow> fs_world \<Rightarrow> tree_world \<Rightarrow> commit_world \<Rightarrow> string list option \<Rightarrow> string option
     \<Rightarrow> string option \<Rightarrow> bool \<Rightarrow> state \<Rightarrow> (exn + (string option \<times> string) option) \<times> state" where
  "commit cfg fw tw cw fnames context message aider_edits st =
     (case (if fnames = None \<or> fnames = Some []
            then (case w_is_dirty cw of Inl e \<Rightarrow> Inl e | Inr d \<Rightarrow> Inr (\<not> d))
            else Inr False) of
        Inl e \<Rightarrow> (Inl e, st)
      | Inr True \<Rightarrow> (Inr None, st)
      | Inr False \<Rightarrow>
          (case get_diffs cfg fw tw cw fnames st of
             (Inl e, st1) \<Rightarrow> (Inl e, st1)
           | (Inr difftext, st1) \<Rightarrow>
               if \<not> truthy difftext then (Inr None, st1)
               else
                 (case (if truthy message then (Inr message, st1)
                        else get_commit_message cfg cw (py_str difftext) context st1) of
                    (Inl e, st2) \<Rightarrow> (Inl e, st2)
                  | (Inr chosen, st2) \<Rightarrow>
                      commit_with_message cfg cw fnames aider_edits chosen st2)))"

section \<open>The feature-branch workflow\<close>

text \<open>
  A naive \<open>datetime\<close>, and \<open>strftime("%Y%m%d-%H%M%S")\<close> with its zero padding (years
  from 1000 to 9999).
\<close>

record datetime =
  year :: nat
  month :: nat
  day :: nat
  hour :: nat
  minute :: nat
  second :: nat

definition digit :: "nat \<Rightarrow> char" where
  "digit d = char_of (48 + d mod 10)"

definition pad2 :: "nat \<Rightarrow> string" where
  "pad2 n = [digit (n div 10), digit n]"

definition pad4 :: "nat \<Rightarrow> string" where
  "pad4 n = [digit (n div 1000), digit (n div 100), digit (n div 10), digit n]"

definition strftime :: "datetime \<Rightarrow> string" where
  "strftime d = pad4 (year d) @ pad2 (month d) @ pad2 (day d) @ ''-''
                @ pad2 (hour d) @ pad2 (minute d) @ pad2 (second d)"

text \<open>
  What the repository and the clock answer during one call. \<open>datetime.now()\<close> reads
  the local time; the clock also has a UTC reading, which the code does not ask for.
  \<open>w_rev_hexsha name\<close> is \<open>self.repo.commit(name).hexsha\<close>.
\<close>

record feature_world =
  w_repo_dirty :: "exn + bool"
  w_checkout :: "string \<Rightarrow> exn option"
  w_now_local :: datetime
  w_now_utc :: datetime
  w_rev_hexsha :: "string \<Rightarrow> exn + string"
  w_create_head :: "string \<Rightarrow> exn option"
  w_head_checkout :: "string \<Rightarrow> exn option"

subsection \<open>\<open>is_dirty()\<close> without a path (lines 492-496)\<close>

definition is_dirty :: "feature_world \<Rightarrow> exn + bool" where
  "is_dirty fw = w_repo_dirty fw"

subsection \<open>\<open>checkout_branch\<close> (lines 534-542)\<close>

definition checkout_branch :: "feature_world \<Rightarrow> string \<Rightarrow> state \<Rightarrow> exn option \<times> state" where
  "checkout_branch fw branch_name st =
     (case is_dirty fw of
        Inl e \<Rightarrow> (Some e, st)
      | Inr True \<Rightarrow>
          (Some (Exn ValueError
             ''Working directory is dirty. Please commit or stash changes before switching branches.''),
           st)
      | Inr False \<Rightarrow>
          (case w_checkout fw branch_name of
             None \<Rightarrow>
               (None, tool_output (''Switched to branch '' @ quote branch_name @ ''.'')
                        (git_cmd ''checkout'' [branch_name] True st))
           | Some e \<Rightarrow>
               if exn_kind e = GitCommandError
               then (Some (Exn ValueError (''Could not checkout branch '' @ quote branch_name
                                           @ '': '' @ exn_str e)),
                     git_cmd ''checkout'' [branch_name] False st)
               else (Some e, git_cmd ''checkout'' [branch_name] False st)))"

subsection \<open>\<open>checkout_develop_branch\<close> (lines 548-552)\<close>

definition checkout_develop_branch :: "feature_world \<Rightarrow> state \<Rightarrow> exn option \<times> state" where
  "checkout_develop_branch fw st =
     (if \<not> truthy (develop_branch st)
      then (Some (Exn ValueError ''Develop branch name is not set.''), st)
      else checkout_branch fw (py_str (develop_branch st)) st)"

subsection \<open>\<open>create_feature_branch\<close> (lines 554-601)\<close>

text \<open>
  The suffix: \<open>re.sub(r'[^\w\-]+', '-', suffix).strip('-').lower()\<close>.
  A run of characters that are neither word characters nor hyphens becomes one hyphen;
  hyphens themselves are kept. On a \<open>str\<close> pattern \<open>\w\<close> is Unicode's: the underscore
  and every alphanumeric code point, which below 256 are the digits, the letters
  \<open>A\<close>-\<open>Z\<close> and \<open>a\<close>-\<open>z\<close>, the letters U+00AA, U+00B5, U+00BA, U+00C0-U+00FF without
  the signs U+00D7 and U+00F7, and the numeric U+00B2, U+00B3, U+00B9, U+00BC-U+00BE. The source's parameter \<open>suffix\<close> is \<open>sfx\<close> here, its
  name being taken by a constant of the library.
\<close>

definition is_word :: "char \<Rightarrow> bool" where
  "is_word c =
     (let n = (of_char c :: nat)
      in (48 \<le> n \<and> n \<le> 57) \<or> (65 \<le> n \<and> n \<le> 90) \<or> (97 \<le> n \<and> n \<le> 122) \<or> n = 95
         \<or> n = 170 \<or> n = 181 \<or> n = 186 \<or> (192 \<le> n \<and> n \<noteq> 215 \<and> n \<noteq> 247)
         \<or> n = 178 \<or> n = 179 \<or> n = 185 \<or> (188 \<le> n \<and> n \<le> 190))"

fun sub_runs :: "(char \<Rightarrow> bool) \<Rightarrow> bool \<Rightarrow> string \<Rightarrow> string" where
  "sub_runs keep in_run [] = []"
| "sub_runs keep in_run (c # cs) =
     (if keep c then c # sub_runs keep False cs
      else if in_run then sub_runs keep True cs
      else CHR ''-'' # sub_runs keep True cs)"

definition strip_hyphens :: "string \<Rightarrow> string" where
  "strip_hyphens s =
     rev (dropWhile (\<lambda>c. c = CHR ''-'') (rev (dropWhile (\<lambda>c. c = CHR ''-'') s)))"

definition safe_suffix :: "string \<Rightarrow> string" where
  "safe_suffix sfx =
     lower (strip_hyphens (sub_runs (\<lambda>c. is_word c \<or> c = CHR ''-'') False sfx))"

text \<open>Lines 570-573.\<close>

definition short_hash :: "feature_world \<Rightarrow> string option \<Rightarrow> exn + string" where
  "short_hash fw develop =
     (case w_rev_hexsha fw (py_str develop) of
        Inr hexsha \<Rightarrow> Inr (take 6 hexsha)
      | Inl e \<Rightarrow> if is_Exception (exn_kind e) then Inr ''nohash'' else Inl e)"

text \<open>Lines 575-586.\<close>

definition feature_branch_name :: "string \<Rightarrow> string \<Rightarrow> string option \<Rightarrow> string" where
  "feature_branch_name timestamp sh sfx =
     (let base_name = ''aider/feature-'' @ timestamp @ ''-'' @ sh;
          branch_name = (if truthy sfx then base_name @ ''-'' @ safe_suffix (py_str sfx)
                         else base_name)
      in if length branch_name > 100 then take 100 branch_name else branch_name)"

text \<open>Lines 588-601.\<close>

definition create_or_checkout ::
  "feature_world \<Rightarrow> branch_world \<Rightarrow> string \<Rightarrow> state \<Rightarrow> (exn + string) \<times> state" where
  "create_or_checkout fw bw branch_name st =
     (let wrap = (\<lambda>e. if exn_kind e = GitCommandError
                       then Exn ValueError (''Could not create or checkout feature branch ''
                                            @ quote branch_name @ '': '' @ exn_str e)
                       else e)
      in case w_branches bw of
           Inl e \<Rightarrow> (Inl (wrap e), st)
         | Inr branches \<Rightarrow>
             if branch_name \<in> set branches
             then
               (case checkout_branch fw branch_name
                       (tool_warning (''Branch '' @ quote branch_name
                                      @ '' already exists. Checking it out.'') st) of
                  (Some e, st1) \<Rightarrow> (Inl (wrap e), st1)
                | (None, st1) \<Rightarrow> (Inr branch_name, st1))
             else
               (case w_create_head fw branch_name of
                  Some e \<Rightarrow> (Inl (wrap e), git_cmd ''create_head'' [branch_name] False st)
                | None \<Rightarrow>
                    (let st1 = git_cmd ''create_head'' [branch_name] True st in
                     case w_head_checkout fw branch_name of
                       Some e \<Rightarrow> (Inl (wrap e), git_cmd ''checkout'' [branch_name] False st1)
                     | None \<Rightarrow>
                         (Inr branch_name,
                          tool_output (''Created and switched to new branch ''
                                       @ quote branch_name @ ''.'')
                            (git_cmd ''checkout'' [branch_name] True st1)))))"

text \<open>Lines 559-566: switching to the develop branch first.\<close>

definition ensure_on_develop ::
  "feature_world \<Rightarrow> string \<Rightarrow> state \<Rightarrow> exn option \<times> state" where
  "ensure_on_develop fw current_branch st =
     (if Some current_branch \<noteq> develop_branch st
      then
        (case checkout_develop_branch fw
                (tool_output (''Switching to develop branch '' @ quote (py_str (develop_branch st))
                              @ '' to create feature branch...'') st) of
           (None, st1) \<Rightarrow> (None, st1)
         | (Some e, st1) \<Rightarrow>
             if exn_kind e = ValueError
             then (Some (Exn ValueError
                     (''Could not switch to develop branch '' @ quote (py_str (develop_branch st))
                      @ '' to create feature branch: '' @ exn_str e)), st1)
             else (Some e, st1))
      else (None, st))"

definition create_feature_branch ::
  "feature_world \<Rightarrow> branch_world \<Rightarrow> string option \<Rightarrow> state \<Rightarrow> (exn + string) \<times> state" where
  "create_feature_branch fw bw sfx st =
     (case is_dirty fw of
        Inl e \<Rightarrow> (Inl e, st)
      | Inr True \<Rightarrow>
          (Inl (Exn ValueError
             ''Working directory is dirty. Please commit or stash changes before creating a new branch.''),
           st)
      | Inr False \<Rightarrow>
          (case get_current_branch bw of
             Inl e \<Rightarrow> (Inl e, st)
           | Inr current_branch \<Rightarrow>
               (case ensure_on_develop fw current_branch st of
                  (Some e, st1) \<Rightarrow> (Inl e, st1)
                | (None, st1) \<Rightarrow>
                    (let timestamp = strftime (w_now_local fw) in
                     case short_hash fw (develop_branch st1) of
                       Inl e \<Rightarrow> (Inl e, st1)
                     | Inr sh \<Rightarrow>
                         create_or_checkout fw bw (feature_branch_name timestamp sh sfx) st1))))"

subsection \<open>The branch name in the words of the specification\<close>

text \<open>
  \<open>aider/feature-\<close>, the UTC timestamp, a hyphen, the short id, and for a given
  suffix a hyphen and the suffix with each run of non-word characters collapsed to one
  hyphen, trimmed of hyphens and lower-cased; the whole cut to 100 characters.
\<close>

definition spec_safe_suffix :: "string \<Rightarrow> string" where
  "spec_safe_suffix sfx = lower (strip_hyphens (sub_runs is_word False sfx))"

definition spec_feature_branch_name :: "datetime \<Rightarrow> string \<Rightarrow> string option \<Rightarrow> string" where
  "spec_feature_branch_name utc sh sfx =
     take 100 (''aider/feature-'' @ strftime utc @ ''-'' @ sh
               @ (if truthy sfx then ''-'' @ spec_safe_suffix (py_str sfx) else []))"

text \<open>The last command sent, if any.\<close>

definition last_git_cmd :: "state \<Rightarrow> event option" where
  "last_git_cmd st =
     (case rev (filter is_git_cmd (log st)) of [] \<Rightarrow> None | ev # evs \<Rightarrow> Some ev)"

section \<open>What a commit leaves behind\<close>

text \<open>The argument lists of the \<open>git commit\<close> commands in the log, oldest first.\<close>

fun commit_args :: "event \<Rightarrow> string list list" where
  "commit_args (GitCmd c args ok) = (if c = ''commit'' then [args] else [])"
| "commit_args ev = []"

definition commit_cmds :: "state \<Rightarrow> string list list" where
  "commit_cmds st = concat (map commit_args (log st))"

text \<open>A step that leaves the process environment alone and sends no command.\<close>

definition quiet :: "state \<Rightarrow> state \<Rightarrow> bool" where
  "quiet st st' =
     (environ st' = environ st \<and> filter is_git_cmd (log st') = filter is_git_cmd (log st))"

text \<open>An outcome that is a value.\<close>

definition succeeds :: "exn + 'a \<Rightarrow> bool" where
  "succeeds r = (case r of Inl e \<Rightarrow> False | Inr v \<Rightarrow> True)"

subsection \<open>The attribution prefix in the words of the specification\<close>

text \<open>
  The prefix is applied when the edit is agent-originated and author-message-attribution
  is enabled, or when committer-message-attribution is enabled; it is applied once.
\<close>

definition spec_attributed :: "config \<Rightarrow> bool \<Rightarrow> string \<Rightarrow> string" where
  "spec_attributed cfg aider_edits m =
     (if (aider_edits \<and> attribute_commit_message_author cfg)
         \<or> attribute_commit_message_committer cfg
      then ''aider: '' @ m else m)"

text \<open>The message of the commit: that text, or the placeholder if there is none.\<close>

definition spec_message :: "config \<Rightarrow> bool \<Rightarrow> string \<Rightarrow> string" where
  "spec_message cfg aider_edits m =
     (if spec_attributed cfg aider_edits m = [] then ''(no commit message provided)''
      else spec_attributed cfg aider_edits m)"


text \<open>The commands a call has sent: those in the log after it that were not there before.\<close>

definition sent :: "state \<Rightarrow> state \<Rightarrow> event list" where
  "sent st st' = drop (length (filter is_git_cmd (log st))) (filter is_git_cmd (log st'))"

text \<open>
  What lines 216-222 return for a command line and a message: the outcome of the commit
  command and of reading the new head.
\<close>

definition commit_outcome ::
  "commit_world \<Rightarrow> string list \<Rightarrow> string \<Rightarrow> exn + (string option \<times> string) option" where
  "commit_outcome cw cmd msg =
     (case w_commit cw cmd of
        Some e \<Rightarrow> if any_git_error (exn_kind e) then Inr None else Inl e
      | None \<Rightarrow>
          (case get_head_commit_sha_short cw of
             Inl e \<Rightarrow> Inl e
           | Inr commit_hash \<Rightarrow> Inr (Some (commit_hash, msg))))"

section \<open>Sequences of calls and what they keep\<close>





text \<open>Every cached set lives at an address that has been handed out.\<close>

definition cache_ok :: "state \<Rightarrow> bool" where
  "cache_ok st = (\<forall>c a. tree_files st c = Some a \<longrightarrow> a < next_addr st)"

text \<open>
  The ignore file has been looked at within the last second (or there is none), so
  \<open>refresh_aider_ignore\<close> does nothing.
\<close>

definition settled :: "config \<Rightarrow> fs_world \<Rightarrow> state \<Rightarrow> bool" where
  "settled cfg fw st =
     (aider_ignore_file cfg = None \<or> w_now fw - aider_ignore_last_check st < 1)"

text \<open>
  Steps that touch no set object, and steps that only add to sets and to the cache.
  Neither kind touches the process environment or sends a command.
\<close>

definition same_sets :: "state \<Rightarrow> state \<Rightarrow> bool" where
  "same_sets st st' =
     (heap st' = heap st \<and> tree_files st' = tree_files st \<and> next_addr st' = next_addr st
      \<and> environ st' = environ st
      \<and> filter is_git_cmd (log st') = filter is_git_cmd (log st))"

definition evolves :: "state \<Rightarrow> state \<Rightarrow> bool" where
  "evolves st st' =
     (next_addr st \<le> next_addr st'
      \<and> (\<forall>b < next_addr st. set (contents st b) \<subseteq> set (contents st' b))
      \<and> (\<forall>c a. tree_files st c = Some a \<longrightarrow> tree_files st' c = Some a)
      \<and> (cache_ok st \<longrightarrow> cache_ok st')
      \<and> environ st' = environ st
      \<and> filter is_git_cmd (log st') = filter is_git_cmd (log st))"

section \<open>Example repositories\<close>

definition cfg_default :: config where
  "cfg_default = \<lparr>root = ''/repo'', aider_ignore_file = None, subtree_only = False,
     attribute_author = True, attribute_committer = True,
     attribute_commit_message_author = False, attribute_commit_message_committer = False,
     commit_prompt = None, git_commit_verify = True, primary_branch_name = Some ''main''\<rparr>"

text \<open>Branches \<open>master\<close> and \<open>develop\<close>, \<open>master\<close> checked out.\<close>

definition w_master_develop :: branch_world where
  "w_master_develop = \<lparr>w_branches = Inr [''master'', ''develop''],
     w_active_branch = Inr ''master'',
     w_head_object_hexsha = Inr ''8c1f3a9d2b7e4f60a1b2c3d4e5f60718293a4b5c''\<rparr>"

text \<open>A repository whose references cannot be read: listing the branches raises.\<close>

definition w_unreadable_refs :: branch_world where
  "w_unreadable_refs = \<lparr>
     w_branches = Inl (Exn ValueError ''Failed to parse reference information''),
     w_active_branch = Inr ''master'',
     w_head_object_hexsha = Inr ''8c1f3a9d2b7e4f60a1b2c3d4e5f60718293a4b5c''\<rparr>"

text \<open>
  No ignore file on disk, the working directory is the root. The stand-in for
  \<open>pathspec\<close> matches a file that is listed literally.
\<close>

definition w_plain :: fs_world where
  "w_plain = \<lparr>w_now = 1000, w_cwd = Inr ''/repo'', w_root_resolved = ''/repo'',
     w_ignore_is_file = False, w_ignore_mtime = 0, w_ignore_read = Inr [],
     w_match_file = (\<lambda>lines f. f \<in> set lines)\<rparr>"

definition cfg_subtree :: config where
  "cfg_subtree = cfg_default\<lparr>subtree_only := True\<rparr>"

text \<open>
  A repository whose head commit \<open>c1\<close> holds \<open>a.txt\<close>; then \<open>b.txt\<close> is staged as
  well.
\<close>

definition tw_committed :: tree_world where
  "tw_committed = \<lparr>w_head_commit = Inr ''c1'', w_traverse = Inr [Item ''blob'' ''a.txt''],
     w_index_entries = Inr [''a.txt'']\<rparr>"

definition tw_staged :: tree_world where
  "tw_staged = tw_committed\<lparr>w_index_entries := Inr [''a.txt'', ''b.txt'']\<rparr>"

text \<open>The object after one call of \<open>get_tracked_files\<close> in the first of these.\<close>

definition st_populated :: state where
  "st_populated = init_state\<lparr>
     normalized_path := [''a.txt'' \<mapsto> ''a.txt''],
     tree_files := [''c1'' \<mapsto> 2],
     heap := [0 \<mapsto> [''a.txt''], 1 \<mapsto> [''a.txt''], 2 \<mapsto> [''a.txt'']],
     next_addr := 3,
     ignore_file_cache := [''a.txt'' \<mapsto> False]\<rparr>"




text \<open>
  A dirty repository with commits on \<open>main\<close>, the user \<open>Ada\<close>, and one backend that
  never answers; then the same without a configured user name, and with a commit command
  that fails.
\<close>

definition model_silent :: model where
  "model_silent = \<lparr>m_token_count = (\<lambda>sys content. length sys + length content),
     m_max_input_tokens = Some 100000, m_send = (\<lambda>sys content. Inr None)\<rparr>"

definition cw_silent :: commit_world where
  "cw_silent = \<lparr>w_is_dirty = Inr True, w_active = Inr ''main'', w_has_commits = Inr True,
     w_diff = (\<lambda>args. Inr ''diff --git a/a.txt b/a.txt''),
     w_models = Some [model_silent], w_commit_system = ''Write a commit message.'',
     w_add = (\<lambda>fname. None), w_user_name = Inr ''Ada'',
     w_commit = (\<lambda>cmd. None),
     w_head_after = Inr ''3f2a9c1d5e6b7a8091a2b3c4d5e6f708192a3b4c'',
     w_safe_abs_path = (\<lambda>p. p)\<rparr>"

definition cw_no_identity :: commit_world where
  "cw_no_identity = cw_silent\<lparr>w_user_name :=
     Inl (Exn GitCommandError ''git config --get user.name returned exit status 1'')\<rparr>"

definition cw_commit_fails :: commit_world where
  "cw_commit_fails = cw_silent\<lparr>w_commit :=
     (\<lambda>cmd. Some (Exn GitCommandError ''git commit returned exit status 1''))\<rparr>"

text \<open>An object in a process whose environment names an author but no committer.\<close>

definition st_author_env :: state where
  "st_author_env = init_state\<lparr>environ := [''GIT_AUTHOR_NAME'' \<mapsto> ''Bob'']\<rparr>"

text \<open>
  A clean working tree at 03:04:05 local time, 02:04:05 UTC, on 2 January 2024, in a
  repository where every command succeeds; and an object whose branch roles are resolved.
\<close>

definition now_0304 :: datetime where
  "now_0304 = \<lparr>year = 2024, month = 1, day = 2, hour = 3, minute = 4, second = 5\<rparr>"

definition fw_clean :: feature_world where
  "fw_clean = \<lparr>w_repo_dirty = Inr False, w_checkout = (\<lambda>name. None),
     w_now_local = now_0304, w_now_utc = now_0304\<lparr>hour := 2\<rparr>,
     w_rev_hexsha = (\<lambda>name. Inr ''8c1f3a9d2b7e4f60a1b2c3d4e5f60718293a4b5c''),
     w_create_head = (\<lambda>name. None), w_head_checkout = (\<lambda>name. None)\<rparr>"

definition st_resolved :: state where
  "st_resolved = init_state\<lparr>primary_branch := Some ''master'', develop_branch := Some ''develop''\<rparr>"

text \<open>
  A backend that answers with white space only; both kinds of message attribution
  switched on; and a detached head that cannot be read, in a repository with the
  branches \<open>master\<close> and \<open>develop\<close>.
\<close>

definition model_blank :: model where
  "model_blank = \<lparr>m_token_count = (\<lambda>sys content. length sys + length content),
     m_max_input_tokens = None, m_send = (\<lambda>sys content. Inr (Some [CHR '' '', CHR 0x0A]))\<rparr>"

definition cw_blank :: commit_world where
  "cw_blank = cw_silent\<lparr>w_models := Some [model_blank]\<rparr>"

definition cfg_attributing :: config where
  "cfg_attributing = cfg_default\<lparr>attribute_commit_message_author := True,
                                  attribute_commit_message_committer := True\<rparr>"

definition w_detached_unreadable :: branch_world where
  "w_detached_unreadable = \<lparr>w_branches = Inr [''master'', ''develop''],
     w_active_branch = Inl (Exn TypeError ''HEAD is a detached symbolic reference''),
     w_head_object_hexsha = Inl (Exn ValueError ''Reference at HEAD does not exist'')\<rparr>"

section \<open>Branch-role resolution\<close>

lemma get_current_branch_active:
  "w_active_branch w = Inr b \<Longrightarrow> get_current_branch w = Inr b"
  by (simp add: get_current_branch_def)

lemma get_current_branch_readable:
  assumes "w_active_branch w = Inr cur
         \<or> (\<exists>e h. w_active_branch w = Inl e \<and> w_head_object_hexsha w = Inr h
                \<and> any_git_error (exn_kind e)
                \<and> (exn_kind e = TypeError \<or> contains ''detached'' (lower (exn_str e)))
                \<and> cur = take 7 h @ '' (Detached HEAD)'')"
  shows "get_current_branch w = Inr cur"
  using assms by (auto simp: get_current_branch_def)

text \<open>
  Claim C7, as the code has it. The resolver reads the current branch (line 130) before
  it applies the precedence. When the branches can be listed and the current branch can
  be read (the active branch has a name, or the head is detached and its commit id can
  be read), the resolver raises nothing, sets the primary branch to the configured name
  if it is a branch, else to \<open>main\<close>, else \<open>master\<close>, else \<open>develop\<close>, else the
  current branch, and the develop branch to \<open>develop\<close> if it is a branch, else to the
  primary. It warns once when the primary had to fall back to \<open>develop\<close> or the current
  branch, and once more when there is no \<open>develop\<close> branch and the primary is not
  called \<open>develop\<close>. With the branches \<open>master\<close> and \<open>develop\<close> and the configured
  name \<open>main\<close>, primary is then \<open>master\<close> and develop is \<open>develop\<close>.
\<close>

theorem determine_git_flow_branches_spec:
  assumes "w_branches w = Inr bs"
    and "w_active_branch w = Inr cur
         \<or> (\<exists>e h. w_active_branch w = Inl e \<and> w_head_object_hexsha w = Inr h
                \<and> any_git_error (exn_kind e)
                \<and> (exn_kind e = TypeError \<or> contains ''detached'' (lower (exn_str e)))
                \<and> cur = take 7 h @ '' (Detached HEAD)'')"
  shows "(case determine_git_flow_branches cfg w st of (r, st') \<Rightarrow>
            r = None
          \<and> primary_branch st' = Some (spec_primary (primary_branch_name cfg) bs cur)
          \<and> develop_branch st' =
              Some (spec_develop bs (spec_primary (primary_branch_name cfg) bs cur))
          \<and> length (filter is_warning (new_log st st')) =
              (if spec_primary_warns (primary_branch_name cfg) bs then 1 else 0) +
              (if ''develop'' \<notin> set bs
                  \<and> spec_primary (primary_branch_name cfg) bs cur \<noteq> ''develop'' then 1 else 0))
       \<and> spec_primary (Some ''main'') [''master'', ''develop''] cur = ''master''
       \<and> spec_develop [''master'', ''develop''] ''master'' = ''develop''"
proof -
  have cb: "get_current_branch w = Inr cur"
    using get_current_branch_readable [OF assms(2)] .
  have ex: "spec_primary (Some ''main'') [''master'', ''develop''] cur = ''master''"
           "spec_develop [''master'', ''develop''] ''master'' = ''develop''"
    by (simp_all add: spec_primary_def spec_develop_def)
  have run: "determine_git_flow_branches cfg w st =
     (let st1 = resolve_primary cfg bs cur st;
          st2 = resolve_develop bs st1;
          st3 = tool_output (''Identified Primary Branch: '' @ py_str (primary_branch st2)) st2;
          st4 = tool_output (''Identified Develop Branch: '' @ py_str (develop_branch st3)) st3
      in (None, st4))"
    using assms(1) cb by (simp add: determine_git_flow_branches_def)
  show ?thesis
    unfolding run using ex
    by (auto simp: resolve_primary_def resolve_develop_def spec_primary_def spec_develop_def
        spec_primary_warns_def tool_warning_def tool_output_def new_log_def is_warning_def
        Let_def split: option.splits)
qed

theorem determine_git_flow_branches_spec_witness:
  "primary_branch (snd (determine_git_flow_branches cfg_default w_master_develop init_state))
     = Some ''master''
   \<and> develop_branch (snd (determine_git_flow_branches cfg_default w_master_develop init_state))
     = Some ''develop''
   \<and> fst (determine_git_flow_branches cfg_default w_master_develop init_state) = None"
proof -
  have b: "w_branches w_master_develop = Inr [''master'', ''develop'']"
    by (simp add: w_master_develop_def)
  have c: "w_active_branch w_master_develop = Inr ''master''
         \<or> (\<exists>e h. w_active_branch w_master_develop = Inl e
                \<and> w_head_object_hexsha w_master_develop = Inr h
                \<and> any_git_error (exn_kind e)
                \<and> (exn_kind e = TypeError \<or> contains ''detached'' (lower (exn_str e)))
                \<and> ''master'' = take 7 h @ '' (Detached HEAD)'')"
    by (simp add: w_master_develop_def)
  have n: "primary_branch_name cfg_default = Some ''main''"
    by (simp add: cfg_default_def)
  show ?thesis
    using determine_git_flow_branches_spec [OF b c, of cfg_default init_state]
    by (simp add: n split: prod.splits)
qed

text \<open>
  The claim as written fails where the current branch cannot be read: with exactly the
  branches \<open>master\<close> and \<open>develop\<close>, the configured name \<open>main\<close> and a detached head
  whose commit cannot be read, reading the current branch raises, the handler takes
  over, and the primary is \<open>main\<close>, which is no branch.
\<close>

theorem determine_git_flow_branches_counterexample:
  "w_branches w_detached_unreadable = Inr [''master'', ''develop'']
   \<and> primary_branch_name cfg_default = Some ''main''
   \<and> fst (determine_git_flow_branches cfg_default w_detached_unreadable init_state) = None
   \<and> primary_branch (snd (determine_git_flow_branches cfg_default w_detached_unreadable
                            init_state)) = Some ''main''
   \<and> develop_branch (snd (determine_git_flow_branches cfg_default w_detached_unreadable
                            init_state)) = Some ''develop''"
  by (simp add: determine_git_flow_branches_def get_current_branch_def
      w_detached_unreadable_def cfg_default_def init_state_def tool_error_def Let_def)

text \<open>
  Claim C9. The handler of the resolver asks the repository for its branches again
  (line 164) outside any \<open>try\<close>. In a repository whose references cannot be read the
  exception raised at line 129 is caught, the fallback for the primary is stored, and
  the second listing raises out of the resolver: the develop branch stays unset.
\<close>

theorem determine_git_flow_branches_handler_raises:
  "fst (determine_git_flow_branches cfg_default w_unreadable_refs init_state)
     = Some (Exn ValueError ''Failed to parse reference information'')
   \<and> primary_branch (snd (determine_git_flow_branches cfg_default w_unreadable_refs init_state))
       = Some ''main''
   \<and> develop_branch (snd (determine_git_flow_branches cfg_default w_unreadable_refs init_state))
       = None"
  by (simp add: determine_git_flow_branches_def w_unreadable_refs_def cfg_default_def
      init_state_def tool_error_def Let_def)

text \<open>
  When the exception came from naming the current branch, the branches can still be
  listed and the fallback is the one the specification describes.
\<close>

lemma determine_git_flow_branches_fallback:
  assumes "w_branches w = Inr bs" and "get_current_branch w = Inl e"
    and "is_Exception (exn_kind e)"
  shows "fst (determine_git_flow_branches cfg w st) = None
       \<and> primary_branch (snd (determine_git_flow_branches cfg w st))
           = Some (if truthy (primary_branch_name cfg) then py_str (primary_branch_name cfg)
                   else ''main'')
       \<and> develop_branch (snd (determine_git_flow_branches cfg w st))
           = Some (if ''develop'' \<in> set bs then ''develop''
                   else if truthy (primary_branch_name cfg) then py_str (primary_branch_name cfg)
                   else ''main'')"
  using assms
  by (cases "primary_branch_name cfg")
     (auto simp: determine_git_flow_branches_def tool_error_def Let_def)

section \<open>Paths outside the root\<close>

lemma memo_ok_init: "memo_ok cfg init_state"
  by (simp add: memo_ok_def init_state_def)

lemma normalize_raw_outside:
  "abs_outside_root cfg P \<Longrightarrow>
   normalize_raw cfg P = Inl (Exn ValueError ''path is not in the subpath of the root'')"
  by (auto simp: abs_outside_root_def normalize_raw_def truediv_def relative_to_def Let_def)

lemma normalize_path_outside:
  assumes "abs_outside_root cfg P" and "memo_ok cfg st"
  shows "normalize_path cfg P st =
         (Inl (Exn ValueError ''path is not in the subpath of the root''), st)"
proof -
  have "normalized_path st P = None"
  proof (cases "normalized_path st P")
    case (Some r)
    with assms(2) have "normalize_raw cfg P = Inr r" by (simp add: memo_ok_def)
    with normalize_raw_outside [OF assms(1)] show ?thesis by simp
  qed simp
  then show ?thesis
    by (simp add: normalize_path_def normalize_raw_outside [OF assms(1)])
qed

lemma normalize_path_memo:
  "memo_ok cfg st \<Longrightarrow> fst (normalize_path cfg p st) = normalize_raw cfg p"
  by (cases "normalized_path st p") (auto simp: normalize_path_def memo_ok_def split: sum.splits)

lemma normalize_path_memo_ok:
  "memo_ok cfg st \<Longrightarrow> memo_ok cfg (snd (normalize_path cfg p st))"
  by (auto simp: normalize_path_def memo_ok_def split: sum.splits)

lemma refresh_normalized_path:
  "normalized_path (snd (refresh_aider_ignore cfg w st)) = normalized_path st"
  by (simp add: refresh_aider_ignore_def Let_def split: sum.splits)

lemma refresh_memo_ok:
  "memo_ok cfg st \<Longrightarrow> memo_ok cfg (snd (refresh_aider_ignore cfg w st))"
  by (simp add: memo_ok_def refresh_normalized_path)

lemma ignored_file_raw_outside:
  assumes "abs_outside_root cfg P" and "memo_ok cfg st"
  shows "ignored_file_raw cfg w P st =
     (Inr (subtree_only cfg \<or> (aider_ignore_file cfg \<noteq> None \<and> w_ignore_is_file w)), st)"
  by (auto simp: ignored_file_raw_def ignored_by_spec_def normalize_path_outside [OF assms])

lemma normalize_raw_relative:
  "p_root (Path Q) = [] \<Longrightarrow>
   normalize_raw cfg Q = Inr (str_path \<lparr>p_root = [], p_parts = p_parts (Path Q)\<rparr>)"
  by (simp add: normalize_raw_def truediv_def relative_to_def Let_def)

lemma normalize_path_relative:
  assumes "p_root (Path Q) = []" and "memo_ok cfg st"
  shows "fst (normalize_path cfg Q st) = Inr (str_path \<lparr>p_root = [], p_parts = p_parts (Path Q)\<rparr>)"
  using normalize_path_memo [OF assms(2), of Q] normalize_raw_relative [OF assms(1), of cfg] by simp

text \<open>
  Claim C3, as the code has it. Let \<open>P\<close> be an absolute path that does not lie under
  the root, on an object whose memo holds only what \<open>normalize_path\<close> stored. Then
  \<open>normalize_path P\<close> raises \<open>ValueError\<close>. \<open>ignored_file_raw P\<close> returns true when
  subtree-only mode is on, or when an ignore file is configured and exists, and false
  otherwise. \<open>ignored_file P\<close> raises what re-reading the ignore file raises, if it
  raises; else it returns the cached answer for \<open>P\<close> if there is one, else the answer
  of \<open>ignored_file_raw\<close>. A relative path \<open>Q\<close> is never rejected by \<open>normalize_path\<close>,
  wherever its \<open>..\<close> components lead: the result is \<open>Q\<close>'s own components.
\<close>

theorem outside_root_normalize_ignored:
  assumes "abs_outside_root cfg P" and "memo_ok cfg st"
  shows "raises ValueError (fst (normalize_path cfg P st))
       \<and> fst (ignored_file_raw cfg w P st)
           = Inr (subtree_only cfg \<or> (aider_ignore_file cfg \<noteq> None \<and> w_ignore_is_file w))
       \<and> (case refresh_aider_ignore cfg w st of
            (Some e, st1) \<Rightarrow> fst (ignored_file cfg w P st) = Inl e
          | (None, st1) \<Rightarrow>
              fst (ignored_file cfg w P st) =
                (case ignore_file_cache st1 P of
                   Some r \<Rightarrow> Inr r
                 | None \<Rightarrow> Inr (subtree_only cfg
                                 \<or> (aider_ignore_file cfg \<noteq> None \<and> w_ignore_is_file w))))
       \<and> (p_root (Path Q) = [] \<longrightarrow>
            fst (normalize_path cfg Q st)
              = Inr (str_path \<lparr>p_root = [], p_parts = p_parts (Path Q)\<rparr>))"
proof -
  have a: "raises ValueError (fst (normalize_path cfg P st))"
    by (simp add: normalize_path_outside [OF assms] raises_def)
  have b: "fst (ignored_file_raw cfg w P st)
           = Inr (subtree_only cfg \<or> (aider_ignore_file cfg \<noteq> None \<and> w_ignore_is_file w))"
    by (simp add: ignored_file_raw_outside [OF assms])
  have c: "(case refresh_aider_ignore cfg w st of
            (Some e, st1) \<Rightarrow> fst (ignored_file cfg w P st) = Inl e
          | (None, st1) \<Rightarrow>
              fst (ignored_file cfg w P st) =
                (case ignore_file_cache st1 P of
                   Some r \<Rightarrow> Inr r
                 | None \<Rightarrow> Inr (subtree_only cfg
                                 \<or> (aider_ignore_file cfg \<noteq> None \<and> w_ignore_is_file w))))"
  proof (cases "refresh_aider_ignore cfg w st")
    case (Pair r st1)
    have m: "memo_ok cfg st1" using refresh_memo_ok [OF assms(2), of w] Pair by simp
    show ?thesis
      by (simp add: Pair ignored_file_def ignored_file_raw_outside [OF assms(1) m]
          split: option.splits)
  qed
  have d: "p_root (Path Q) = [] \<longrightarrow>
            fst (normalize_path cfg Q st)
              = Inr (str_path \<lparr>p_root = [], p_parts = p_parts (Path Q)\<rparr>)"
    using normalize_path_relative [OF _ assms(2)] by blast
  from a b c d show ?thesis by blast
qed

theorem outside_root_normalize_ignored_witness:
  "abs_outside_root cfg_subtree ''/elsewhere/notes.txt''
   \<and> memo_ok cfg_subtree init_state
   \<and> raises ValueError (fst (normalize_path cfg_subtree ''/elsewhere/notes.txt'' init_state))
   \<and> fst (ignored_file_raw cfg_subtree w_plain ''/elsewhere/notes.txt'' init_state) = Inr True
   \<and> fst (ignored_file cfg_subtree w_plain ''/elsewhere/notes.txt'' init_state) = Inr True
   \<and> fst (normalize_path cfg_subtree ''../elsewhere/notes.txt'' init_state)
       = Inr ''../elsewhere/notes.txt''"
proof -
  have o: "abs_outside_root cfg_subtree ''/elsewhere/notes.txt''"
    by (simp add: abs_outside_root_def cfg_subtree_def cfg_default_def Path_def)
  have m: "memo_ok cfg_subtree init_state" by (rule memo_ok_init)
  have r: "refresh_aider_ignore cfg_subtree w_plain init_state = (None, init_state)"
    by (simp add: refresh_aider_ignore_def cfg_subtree_def cfg_default_def)
  have s: "subtree_only cfg_subtree" by (simp add: cfg_subtree_def)
  have c: "ignore_file_cache init_state ''/elsewhere/notes.txt'' = None"
    by (simp add: init_state_def)
  have q: "p_root (Path ''../elsewhere/notes.txt'') = []" by (simp add: Path_def)
  have q': "str_path \<lparr>p_root = [], p_parts = p_parts (Path ''../elsewhere/notes.txt'')\<rparr>
            = ''../elsewhere/notes.txt''"
    by (simp add: Path_def str_path_def)
  show ?thesis
    using outside_root_normalize_ignored [OF o m, of w_plain "''../elsewhere/notes.txt''"] o m
    by (simp add: r s c q q')
qed

text \<open>
  The claim as written fails twice. With no ignore file configured and subtree-only
  mode off, the absolute path \<open>/elsewhere/notes.txt\<close> outside the root \<open>/repo\<close> is
  not ignored. And the relative path \<open>../elsewhere/notes.txt\<close>, which leads outside
  the root, is normalized to itself without an error.
\<close>

theorem outside_root_not_ignored_counterexample:
  "spec_outside_root cfg_default ''/elsewhere/notes.txt''
   \<and> fst (ignored_file_raw cfg_default w_plain ''/elsewhere/notes.txt'' init_state) = Inr False
   \<and> fst (ignored_file cfg_default w_plain ''/elsewhere/notes.txt'' init_state) = Inr False
   \<and> spec_outside_root cfg_default ''../elsewhere/notes.txt''
   \<and> fst (normalize_path cfg_default ''../elsewhere/notes.txt'' init_state)
       = Inr ''../elsewhere/notes.txt''"
  by (simp add: spec_outside_root_def cfg_default_def w_plain_def init_state_def Path_def
      truediv_def ignored_file_def ignored_file_raw_def ignored_by_spec_def
      refresh_aider_ignore_def normalize_path_def normalize_raw_def relative_to_def
      str_path_def Let_def)

section \<open>Set objects and the per-commit cache\<close>

lemma same_sets_refl [simp]: "same_sets st st" by (simp add: same_sets_def)
lemma same_sets_trans: "same_sets a b \<Longrightarrow> same_sets b c \<Longrightarrow> same_sets a c" by (simp add: same_sets_def)

lemma normalize_path_frame:
  "normalize_path cfg p st = (r, st') \<Longrightarrow> st' = st\<lparr>normalized_path := normalized_path st'\<rparr>"
  by (auto simp: normalize_path_def split: if_splits sum.splits)

lemma normalize_path_same_sets: "same_sets st (snd (normalize_path cfg p st))"
  by (auto simp: normalize_path_def same_sets_def split: sum.splits)

lemma refresh_same_sets: "same_sets st (snd (refresh_aider_ignore cfg w st))"
  by (simp add: refresh_aider_ignore_def same_sets_def Let_def split: sum.splits)

lemma ignored_by_spec_same_sets: "same_sets st (snd (ignored_by_spec cfg w f st))"
  using normalize_path_same_sets [of st cfg f]
  by (auto simp: ignored_by_spec_def split: prod.splits sum.splits option.splits)

lemma ignored_file_raw_same_sets: "same_sets st (snd (ignored_file_raw cfg w f st))"
  using normalize_path_same_sets [of st cfg f]
    ignored_by_spec_same_sets [of "snd (normalize_path cfg f st)" cfg w f]
    ignored_by_spec_same_sets [of st cfg w f]
  by (auto simp: ignored_file_raw_def  split: prod.splits sum.splits option.splits intro: same_sets_trans)

lemma ignored_file_same_sets: "same_sets st (snd (ignored_file cfg w f st))"
proof -
  obtain r st1 where R: "refresh_aider_ignore cfg w st = (r, st1)" by force
  have a: "same_sets st st1" using refresh_same_sets [of st cfg w] R by simp
  obtain x st2 where I: "ignored_file_raw cfg w f st1 = (x, st2)" by force
  have b: "same_sets st1 st2" using ignored_file_raw_same_sets [of st1 cfg w f] I by simp
  show ?thesis using a b
    by (auto simp: ignored_file_def R I same_sets_def split: option.splits sum.splits)
qed

lemma filter_ignored_same_sets: "same_sets st (snd (filter_ignored cfg fw names st))"
proof (induction names arbitrary: st)
  case Nil show ?case by simp
next
  case (Cons f rest)
  obtain x st1 where I: "ignored_file cfg fw f st = (x, st1)" by force
  have a: "same_sets st st1" using ignored_file_same_sets [of st cfg fw f] I by simp
  obtain y st2 where F: "filter_ignored cfg fw rest st1 = (y, st2)" by force
  have b: "same_sets st1 st2" using Cons.IH [of st1] F by simp
  show ?case using a b by (auto simp: I F split: sum.splits intro: same_sets_trans)
qed

lemma contents_set_add:
  "contents (set_add a x st) b = (if b = a \<and> x \<notin> set (contents st a) then contents st a @ [x] else contents st b)"
  by (simp add: set_add_def contents_def)

lemma set_add_fields [simp]:
  "tree_files (set_add a x st) = tree_files st"
  "next_addr (set_add a x st) = next_addr st"
  "normalized_path (set_add a x st) = normalized_path st"
  "environ (set_add a x st) = environ st"
  "log (set_add a x st) = log st"
  by (simp_all add: set_add_def)


lemma memo_ok_set_add [simp]: "memo_ok cfg (set_add a x st) = memo_ok cfg st"
  by (simp add: memo_ok_def)

text \<open>update_normalized: only the set at the given address and the memo change.\<close>

lemma update_normalized_frame:
  "update_normalized cfg paths a st = (r, st') \<Longrightarrow>
     tree_files st' = tree_files st \<and> next_addr st' = next_addr st
   \<and> (\<forall>b. b \<noteq> a \<longrightarrow> contents st' b = contents st b)
   \<and> set (contents st a) \<subseteq> set (contents st' a)
   \<and> environ st' = environ st
   \<and> filter is_git_cmd (log st') = filter is_git_cmd (log st)"
proof (induction paths arbitrary: st)
  case Nil then show ?case by simp
next
  case (Cons p rest)
  obtain x st1 where N: "normalize_path cfg p st = (x, st1)" by force
  have s: "same_sets st st1" using normalize_path_same_sets [of st cfg p] N by simp
  then have c: "\<And>b. contents st1 b = contents st b" by (simp add: same_sets_def contents_def)
  show ?case
  proof (cases x)
    case (Inl e)
    with Cons.prems N s c show ?thesis by (auto simp: same_sets_def)
  next
    case (Inr n)
    with Cons.prems N have U: "update_normalized cfg rest a (set_add a n st1) = (r, st')" by simp
    from Cons.IH [OF U] s c show ?thesis
      by (auto simp: same_sets_def contents_set_add split: if_splits)
  qed
qed

lemma update_normalized_memo_ok:
  "memo_ok cfg st \<Longrightarrow> memo_ok cfg (snd (update_normalized cfg paths a st))"
proof (induction paths arbitrary: st)
  case Nil then show ?case by simp
next
  case (Cons p rest)
  obtain x st1 where N: "normalize_path cfg p st = (x, st1)" by force
  have m: "memo_ok cfg st1" using normalize_path_memo_ok [OF Cons.prems, of p] N by simp
  show ?case using Cons.IH [of "set_add a n st1" for n] m by (cases x) (simp_all add: N)
qed


lemma refresh_settles:
  "refresh_aider_ignore cfg fw st = (None, st1) \<Longrightarrow> settled cfg fw st1"
  by (auto simp: refresh_aider_ignore_def settled_def Let_def split: if_splits sum.splits)

lemma refresh_settled:
  "settled cfg fw st \<Longrightarrow> refresh_aider_ignore cfg fw st = (None, st)"
  by (auto simp: refresh_aider_ignore_def settled_def)

lemma normalize_path_ignore_fields:
  "ignore_file_cache (snd (normalize_path cfg p st)) = ignore_file_cache st
   \<and> aider_ignore_last_check (snd (normalize_path cfg p st)) = aider_ignore_last_check st
   \<and> aider_ignore_spec (snd (normalize_path cfg p st)) = aider_ignore_spec st"
  by (auto simp: normalize_path_def split: sum.splits)

lemma ignored_by_spec_ignore_fields:
  "ignore_file_cache (snd (ignored_by_spec cfg w f st)) = ignore_file_cache st
   \<and> aider_ignore_last_check (snd (ignored_by_spec cfg w f st)) = aider_ignore_last_check st"
  using normalize_path_ignore_fields [of cfg f st]
  by (auto simp: ignored_by_spec_def split: prod.splits sum.splits option.splits)

lemma ignored_file_raw_ignore_fields:
  "ignore_file_cache (snd (ignored_file_raw cfg w f st)) = ignore_file_cache st
   \<and> aider_ignore_last_check (snd (ignored_file_raw cfg w f st)) = aider_ignore_last_check st"
  using normalize_path_ignore_fields [of cfg f st]
    ignored_by_spec_ignore_fields [of cfg w f "snd (normalize_path cfg f st)"]
    ignored_by_spec_ignore_fields [of cfg w f st]
  by (auto simp: ignored_file_raw_def split: prod.splits sum.splits option.splits)

text \<open>After an answer, the state is settled and the answer is cached.\<close>

lemma ignored_file_caches:
  assumes "ignored_file cfg fw f st = (Inr b, st1)"
  shows "settled cfg fw st1 \<and> ignore_file_cache st1 f = Some b"
proof -
  obtain r stR where R: "refresh_aider_ignore cfg fw st = (r, stR)" by force
  with assms have r: "r = None" by (cases r) (auto simp: ignored_file_def)
  have sR: "settled cfg fw stR" using refresh_settles R r by simp
  show ?thesis
  proof (cases "ignore_file_cache stR f")
    case (Some c)
    with assms R r sR show ?thesis by (auto simp: ignored_file_def)
  next
    case None
    obtain x st2 where I: "ignored_file_raw cfg fw f stR = (x, st2)" by force
    have k: "aider_ignore_last_check st2 = aider_ignore_last_check stR"
      using ignored_file_raw_ignore_fields [of cfg fw f stR] I by simp
    from assms R r None I sR k show ?thesis
      by (cases x) (auto simp: ignored_file_def settled_def)
  qed
qed

text \<open>In a settled state any further question keeps the state settled and the cache entries.\<close>

lemma ignored_file_keeps:
  assumes "settled cfg fw st" and "ignore_file_cache st f = Some b"
  shows "settled cfg fw (snd (ignored_file cfg fw g st))
       \<and> ignore_file_cache (snd (ignored_file cfg fw g st)) f = Some b"
proof -
  have R: "refresh_aider_ignore cfg fw st = (None, st)" using refresh_settled [OF assms(1)] .
  obtain x st2 where I: "ignored_file_raw cfg fw g st = (x, st2)" by force
  have k: "aider_ignore_last_check st2 = aider_ignore_last_check st"
          "ignore_file_cache st2 = ignore_file_cache st"
    using ignored_file_raw_ignore_fields [of cfg fw g st] I by simp_all
  show ?thesis using assms k
    by (cases x; cases "ignore_file_cache st g") (auto simp: ignored_file_def R I settled_def)
qed

lemma filter_ignored_keeps:
  assumes "settled cfg fw st" and "ignore_file_cache st f = Some b"
  shows "settled cfg fw (snd (filter_ignored cfg fw names st))
       \<and> ignore_file_cache (snd (filter_ignored cfg fw names st)) f = Some b"
  using assms
proof (induction names arbitrary: st)
  case Nil then show ?case by simp
next
  case (Cons g rest)
  obtain x st1 where I: "ignored_file cfg fw g st = (x, st1)" by force
  have k: "settled cfg fw st1" "ignore_file_cache st1 f = Some b"
    using ignored_file_keeps [OF Cons.prems, of g] I by simp_all
  obtain y st2 where F: "filter_ignored cfg fw rest st1 = (y, st2)" by force
  from Cons.IH [OF k] F k show ?case
    by (cases x; cases y) (auto simp: I)
qed

lemma ignored_file_cached:
  assumes "settled cfg fw st" and "ignore_file_cache st f = Some b"
  shows "ignored_file cfg fw f st = (Inr b, st)"
  using assms by (simp add: ignored_file_def refresh_settled)

text \<open>What the filter keeps: the names that are not ignored in the state it leaves.\<close>

lemma filter_ignored_result:
  "filter_ignored cfg fw names st = (Inr res, st') \<Longrightarrow>
   res = filter (\<lambda>f. fst (ignored_file cfg fw f st') = Inr False) names"
proof (induction names arbitrary: st res)
  case Nil then show ?case by simp
next
  case (Cons g rest)
  from Cons.prems obtain ign st1 where I: "ignored_file cfg fw g st = (Inr ign, st1)"
    by (auto split: prod.splits sum.splits)
  with Cons.prems obtain res' where
    F: "filter_ignored cfg fw rest st1 = (Inr res', st')" and
    r: "res = (if ign then res' else g # res')"
    by (auto split: prod.splits sum.splits)
  have k: "settled cfg fw st1" "ignore_file_cache st1 g = Some ign"
    using ignored_file_caches [OF I] by simp_all
  have "settled cfg fw st' \<and> ignore_file_cache st' g = Some ign"
    using filter_ignored_keeps [OF k, of rest] F by simp
  then have "fst (ignored_file cfg fw g st') = Inr ign"
    by (simp add: ignored_file_cached)
  with Cons.IH [OF F] r show ?case by simp
qed

lemma evolves_refl: "evolves st st"
  by (simp add: evolves_def)

lemma evolves_trans: "evolves a b \<Longrightarrow> evolves b c \<Longrightarrow> evolves a c"
proof -
  assume ab: "evolves a b" and bc: "evolves b c"
  have 1: "next_addr a \<le> next_addr c" using ab bc by (simp add: evolves_def)
  have 2: "\<forall>x < next_addr a. set (contents a x) \<subseteq> set (contents c x)"
  proof (intro allI impI)
    fix x assume x: "x < next_addr a"
    then have "x < next_addr b" using ab by (simp add: evolves_def)
    then have "set (contents b x) \<subseteq> set (contents c x)" using bc by (simp add: evolves_def)
    moreover have "set (contents a x) \<subseteq> set (contents b x)" using ab x by (simp add: evolves_def)
    ultimately show "set (contents a x) \<subseteq> set (contents c x)" by blast
  qed
  have 3: "\<forall>k v. tree_files a k = Some v \<longrightarrow> tree_files c k = Some v"
    using ab bc by (simp add: evolves_def)
  have 4: "cache_ok a \<longrightarrow> cache_ok c" using ab bc by (simp add: evolves_def)
  have 5: "environ c = environ a" using ab bc by (simp add: evolves_def)
  have 6: "filter is_git_cmd (log c) = filter is_git_cmd (log a)"
    using ab bc by (simp add: evolves_def)
  from 1 2 3 4 5 6 show "evolves a c" by (simp add: evolves_def)
qed

lemma same_sets_evolves: "same_sets st st' \<Longrightarrow> evolves st st'"
  by (simp add: same_sets_def evolves_def contents_def cache_ok_def)

lemma tool_same_sets [simp]:
  "same_sets st (tool_error m st)" "same_sets st (tool_warning m st)"
  "same_sets st (tool_output m st)"
  by (simp_all add: same_sets_def tool_error_def tool_warning_def tool_output_def)

lemma alloc_fields:
  "alloc xs st = (a, st') \<Longrightarrow>
     a = next_addr st \<and> next_addr st' = Suc (next_addr st) \<and> tree_files st' = tree_files st
   \<and> normalized_path st' = normalized_path st \<and> environ st' = environ st
   \<and> filter is_git_cmd (log st') = filter is_git_cmd (log st)
   \<and> contents st' a = xs \<and> (\<forall>b. b \<noteq> a \<longrightarrow> contents st' b = contents st b)"
  by (auto simp: alloc_def contents_def)

lemma alloc_evolves: "alloc xs st = (a, st') \<Longrightarrow> evolves st st'"
  by (auto simp: alloc_def evolves_def contents_def cache_ok_def less_Suc_eq)

lemma set_add_evolves: "evolves st (set_add a x st)"
  by (auto simp: evolves_def contents_set_add cache_ok_def)

lemma update_normalized_evolves:
  "update_normalized cfg paths a st = (r, st') \<Longrightarrow> evolves st st'"
  using update_normalized_frame [of cfg paths a st r st']
  by (auto simp: evolves_def cache_ok_def)

lemma traverse_loop_frame:
  "traverse_loop items a st = (r, st') \<Longrightarrow>
     tree_files st' = tree_files st \<and> next_addr st' = next_addr st
   \<and> normalized_path st' = normalized_path st \<and> environ st' = environ st
   \<and> filter is_git_cmd (log st') = filter is_git_cmd (log st)
   \<and> (\<forall>b. b \<noteq> a \<longrightarrow> contents st' b = contents st b)
   \<and> set (contents st a) \<subseteq> set (contents st' a)"
proof (induction items a st rule: traverse_loop.induct)
  case (1 files st) then show ?case by simp
next
  case (2 ty path rest files st)
  from "2.prems" have "traverse_loop rest files (if ty = ''blob'' then set_add files path st else st) = (r, st')"
    by simp
  from "2.IH" [OF this] show ?case
    by (auto simp: contents_set_add split: if_splits)
next
  case (3 e rest files st)
  show ?case
  proof (cases "exn_kind e = IndexError")
    case True
    with "3.prems" have "traverse_loop rest files (tool_warning
                ''GitRepo: Index error encountered while reading git tree object. Skipping.'' st) = (r, st')"
      by simp
    from "3.IH" [OF True this] show ?thesis
      by (auto simp: tool_warning_def contents_def)
  next
    case False
    with "3.prems" show ?thesis by (auto split: if_splits)
  qed
qed

lemma traverse_loop_evolves: "traverse_loop items a st = (r, st') \<Longrightarrow> evolves st st'"
  using traverse_loop_frame [of items a st r st']
  by (auto simp: evolves_def cache_ok_def)

lemma filter_ignored_evolves: "filter_ignored cfg fw names st = (r, st') \<Longrightarrow> evolves st st'"
  using filter_ignored_same_sets [of st cfg fw names] by (simp add: same_sets_evolves)

lemma unable_to_list_same_sets: "same_sets st (snd (unable_to_list e st))"
  by (simp add: unable_to_list_def same_sets_def tool_error_def tool_output_def)

lemma add_staged_frame:
  assumes "add_staged_and_filter cfg fw tw a st = (r, st')"
  shows "tree_files st' = tree_files st \<and> next_addr st' = next_addr st
       \<and> (\<forall>b. b \<noteq> a \<longrightarrow> contents st' b = contents st b)
       \<and> set (contents st a) \<subseteq> set (contents st' a)
   \<and> environ st' = environ st
   \<and> filter is_git_cmd (log st') = filter is_git_cmd (log st)"
proof -
  obtain x st1 where U: "(case w_index_entries tw of
              Inl e \<Rightarrow> (Some e, st)
            | Inr staged_files \<Rightarrow> update_normalized cfg staged_files a st) = (x, st1)" by force
  have f1: "tree_files st1 = tree_files st \<and> next_addr st1 = next_addr st
       \<and> (\<forall>b. b \<noteq> a \<longrightarrow> contents st1 b = contents st b)
       \<and> set (contents st a) \<subseteq> set (contents st1 a)
       \<and> environ st1 = environ st
       \<and> filter is_git_cmd (log st1) = filter is_git_cmd (log st)"
    using U update_normalized_frame [of cfg _ a st x st1]
    by (cases "w_index_entries tw") auto
  have f2: "\<And>names sx. same_sets sx (snd (filter_ignored cfg fw names sx))"
    by (rule filter_ignored_same_sets)
  have "same_sets st1 st'"
  proof (cases x)
    case None
    with assms U f2 [of st1 "contents st1 a"] show ?thesis
      by (simp add: add_staged_and_filter_def)
  next
    case (Some e)
    show ?thesis
    proof (cases "any_git_error (exn_kind e)")
      case True
      with assms U Some
        f2 [of "tool_error (''Unable to read staged files: '' @ exn_str e) st1" "contents st1 a"]
      show ?thesis
        by (auto simp: add_staged_and_filter_def same_sets_def tool_error_def)
    next
      case False
      with assms U Some show ?thesis by (simp add: add_staged_and_filter_def)
    qed
  qed
  with f1 show ?thesis by (simp add: same_sets_def contents_def)
qed

lemma add_staged_evolves:
  "add_staged_and_filter cfg fw tw a st = (r, st') \<Longrightarrow> evolves st st'"
  using add_staged_frame [of cfg fw tw a st r st']
  by (auto simp: evolves_def cache_ok_def)

lemma cache_store_evolves:
  "tree_files st c = None \<Longrightarrow> a < next_addr st \<Longrightarrow>
   evolves st (st\<lparr>tree_files := (tree_files st)(c \<mapsto> a)\<rparr>)"
  by (auto simp: evolves_def cache_ok_def contents_def)

lemma tracked_files_of_evolves:
  assumes "tracked_files_of cfg fw tw hc st = (r, st')"
  shows "evolves st st'"
proof -
  obtain files st0 where A0: "alloc [] st = (files, st0)" by force
  have e0: "evolves st st0" using alloc_evolves [OF A0] .
  have t0: "tree_files st0 = tree_files st" using alloc_fields [OF A0] by simp
  show ?thesis
  proof (cases hc)
    case None
    with assms A0 have "add_staged_and_filter cfg fw tw files st0 = (r, st')"
      by (simp add: tracked_files_of_def)
    from add_staged_evolves [OF this] e0 show ?thesis by (rule evolves_trans [rotated])
  next
    case (Some c)
    show ?thesis
    proof (cases "tree_files st0 c")
      case (Some cached)
      with assms A0 \<open>hc = Some c\<close>
      have "add_staged_and_filter cfg fw tw cached st0 = (r, st')"
        by (simp add: tracked_files_of_def)
      from add_staged_evolves [OF this] e0 show ?thesis by (rule evolves_trans [rotated])
    next
      case None
      obtain x st1 where T: "(case w_traverse tw of
                           Inl e \<Rightarrow> (Some e, st0)
                         | Inr items \<Rightarrow> traverse_loop items files st0) = (x, st1)" by force
      have e1: "evolves st0 st1" and t1: "tree_files st1 = tree_files st0"
      proof -
        show "evolves st0 st1"
        proof (cases "w_traverse tw")
          case (Inl e) with T show ?thesis by (simp add: evolves_refl)
        next
          case (Inr items) with T show ?thesis by (simp add: traverse_loop_evolves)
        qed
        show "tree_files st1 = tree_files st0"
        proof (cases "w_traverse tw")
          case (Inl e) with T show ?thesis by simp
        next
          case (Inr items) with T show ?thesis by (simp add: traverse_loop_frame)
        qed
      qed
      show ?thesis
      proof (cases x)
        case (Some e)
        with assms A0 \<open>hc = Some c\<close> None T have "unable_to_list e st1 = (r, st')"
          by (simp add: tracked_files_of_def)
        then have "evolves st1 st'"
          using unable_to_list_same_sets [of st1 e] by (simp add: same_sets_evolves)
        with e0 e1 show ?thesis by (meson evolves_trans)
      next
        case None
        obtain files' st2 where A2: "alloc [] st1 = (files', st2)" by force
        have e2: "evolves st1 st2" using alloc_evolves [OF A2] .
        have t2: "tree_files st2 = tree_files st1" using alloc_fields [OF A2] by simp
        obtain y st3 where U: "update_normalized cfg (contents st2 files) files' st2 = (y, st3)"
          by force
        have e3: "evolves st2 st3" using update_normalized_evolves [OF U] .
        have t3: "tree_files st3 = tree_files st2" using update_normalized_frame [OF U] by simp
        show ?thesis
        proof (cases y)
          case (Some e)
          with assms A0 \<open>hc = Some c\<close> \<open>tree_files st0 c = None\<close> T \<open>x = None\<close> A2 U
          have "st' = st3" by (simp add: tracked_files_of_def)
          with e0 e1 e2 e3 show ?thesis by (meson evolves_trans)
        next
          case None
          obtain copy st4 where A4: "alloc (contents st3 files') st3 = (copy, st4)" by force
          have e4: "evolves st3 st4" using alloc_evolves [OF A4] .
          have t4: "tree_files st4 = tree_files st3" and n4: "copy < next_addr st4"
            using alloc_fields [OF A4] by simp_all
          have "tree_files st4 c = None" using t4 t3 t2 t1 \<open>tree_files st0 c = None\<close> by simp
          from cache_store_evolves [OF this n4]
          have e5: "evolves st4 (st4\<lparr>tree_files := (tree_files st4)(c \<mapsto> copy)\<rparr>)" .
          from assms A0 \<open>hc = Some c\<close> \<open>tree_files st0 c = None\<close> T \<open>x = None\<close> A2 U None A4
          have "add_staged_and_filter cfg fw tw files'
                  (st4\<lparr>tree_files := (tree_files st4)(c \<mapsto> copy)\<rparr>) = (r, st')"
            by (simp add: tracked_files_of_def)
          from add_staged_evolves [OF this] e0 e1 e2 e3 e4 e5 show ?thesis
            by (meson evolves_trans)
        qed
      qed
    qed
  qed
qed

lemma get_tracked_files_evolves:
  "evolves st (snd (get_tracked_files cfg fw tw st))"
proof (cases "w_head_commit tw")
  case (Inr c)
  then show ?thesis
    using tracked_files_of_evolves [of cfg fw tw "Some c" st]
    by (cases "tracked_files_of cfg fw tw (Some c) st") (simp add: get_tracked_files_def)
next
  case (Inl e)
  then show ?thesis
    using tracked_files_of_evolves [of cfg fw tw None st] unable_to_list_same_sets [of st e]
    by (cases "tracked_files_of cfg fw tw None st")
       (auto simp: get_tracked_files_def same_sets_evolves)
qed







lemma add_staged_result:
  assumes "add_staged_and_filter cfg fw tw a st = (Inr r, st')"
  shows "\<exists>names. set (contents st a) \<subseteq> set names
           \<and> r = filter (\<lambda>f. fst (ignored_file cfg fw f st') = Inr False) names"
proof -
  obtain x st1 where U: "(case w_index_entries tw of
              Inl e \<Rightarrow> (Some e, st)
            | Inr staged_files \<Rightarrow> update_normalized cfg staged_files a st) = (x, st1)" by force
  have f1: "set (contents st a) \<subseteq> set (contents st1 a)"
    using U update_normalized_frame [of cfg _ a st x st1]
    by (cases "w_index_entries tw") auto
  show ?thesis
  proof (cases x)
    case None
    with assms U have "filter_ignored cfg fw (contents st1 a) st1 = (Inr r, st')"
      by (simp add: add_staged_and_filter_def)
    from filter_ignored_result [OF this] f1 show ?thesis by blast
  next
    case (Some e)
    with assms U have "filter_ignored cfg fw (contents st1 a)
        (tool_error (''Unable to read staged files: '' @ exn_str e) st1) = (Inr r, st')"
      by (auto simp: add_staged_and_filter_def split: if_splits)
    from filter_ignored_result [OF this] f1 show ?thesis by blast
  qed
qed


section \<open>Evaluating the examples\<close>

lemma first_call:
  "get_tracked_files cfg_default w_plain tw_committed init_state = (Inr [''a.txt''], st_populated)"
  by (simp add: get_tracked_files_def tracked_files_of_def add_staged_and_filter_def alloc_def
      contents_def set_add_def tw_committed_def cfg_default_def w_plain_def init_state_def
      st_populated_def normalize_path_def normalize_raw_def relative_to_def truediv_def Path_def
      str_path_def ignored_file_def ignored_file_raw_def ignored_by_spec_def
      refresh_aider_ignore_def Let_def numeral_2_eq_2)


lemmas eval_defs = get_tracked_files_def tracked_files_of_def add_staged_and_filter_def alloc_def
      contents_def set_add_def cfg_default_def w_plain_def init_state_def
      normalize_path_def normalize_raw_def relative_to_def truediv_def Path_def
      str_path_def ignored_file_def ignored_file_raw_def ignored_by_spec_def
      refresh_aider_ignore_def Let_def



lemmas commit_eval_defs = commit_def get_diffs_def current_branch_has_commits_def
  path_in_repo_def diff_text_def get_commit_message_def commit_with_message_def
  attribute_message_def final_message_def abs_fnames_def commit_cmd_def
  commit_under_overrides_def try_commit_def get_head_commit_sha_short_def restore_env_def
  env_restore_def env_set_def env_del_def tool_error_def tool_output_def git_cmd_def
  model_silent_def cw_silent_def


section \<open>The cached set is shared\<close>








section \<open>Tracked files after the index has changed\<close>

text \<open>
  Claim C4 fails on a repeated call. The head commit \<open>c1\<close> holds \<open>a.txt\<close>. The first
  call returns \<open>a.txt\<close> and fills the cache; \<open>b.txt\<close> is staged and the second call
  returns both, adding \<open>b.txt\<close> to the cached set itself; \<open>b.txt\<close> is removed from
  the index again and the third call still returns it, where the union of the tree's
  paths and the index paths minus the ignored ones is \<open>a.txt\<close> alone.
\<close>

theorem tracked_files_keeps_unstaged_path:
  "fst (get_tracked_files cfg_default w_plain tw_committed init_state) = Inr [''a.txt'']
   \<and> fst (get_tracked_files cfg_default w_plain tw_staged
            (snd (get_tracked_files cfg_default w_plain tw_committed init_state)))
        = Inr [''a.txt'', ''b.txt'']
   \<and> fst (get_tracked_files cfg_default w_plain tw_committed
            (snd (get_tracked_files cfg_default w_plain tw_staged
               (snd (get_tracked_files cfg_default w_plain tw_committed init_state)))))
        = Inr [''a.txt'', ''b.txt'']
   \<and> spec_tracked_files cfg_default w_plain tw_committed
            (snd (get_tracked_files cfg_default w_plain tw_staged
               (snd (get_tracked_files cfg_default w_plain tw_committed init_state))))
        = {''a.txt''}"
  by (simp add: spec_tracked_files_def blob_paths_def eval_defs tw_staged_def tw_committed_def)


text \<open>
  The second half of claim C4 holds on every call: a path that is returned is one for
  which \<open>ignored_file\<close> answers false in the state the call leaves.
\<close>

lemma tracked_files_of_result:
  assumes "tracked_files_of cfg fw tw hc st = (Inr r, st')"
  shows "\<forall>f \<in> set r. fst (ignored_file cfg fw f st') = Inr False"
proof -
  have asf: "\<And>a sx. add_staged_and_filter cfg fw tw a sx = (Inr r, st') \<Longrightarrow> ?thesis"
    using add_staged_result by fastforce
  have utl: "\<And>e sx. unable_to_list e sx = (Inr r, st') \<Longrightarrow> ?thesis"
    by (auto simp: unable_to_list_def split: if_splits)
  from assms show ?thesis
    unfolding tracked_files_of_def
    by (auto split: prod.splits option.splits sum.splits dest: asf utl)
qed

lemma get_tracked_files_never_ignored:
  assumes "get_tracked_files cfg fw tw st = (Inr r, st')"
  shows "\<forall>f \<in> set r. fst (ignored_file cfg fw f st') = Inr False"
  using assms tracked_files_of_result [of cfg fw tw _ st r st']
  by (auto simp: get_tracked_files_def unable_to_list_def split: sum.splits if_splits)

section \<open>Committing: the environment and the commands sent\<close>

lemma quiet_refl [simp]: "quiet st st"
  by (simp add: quiet_def)

lemma quiet_trans: "quiet a b \<Longrightarrow> quiet b c \<Longrightarrow> quiet a c"
  by (simp add: quiet_def)

lemma tool_environ [simp]:
  "environ (tool_error m st) = environ st" "environ (tool_warning m st) = environ st"
  "environ (tool_output m st) = environ st" "environ (git_cmd c args ok st) = environ st"
  by (simp_all add: tool_error_def tool_warning_def tool_output_def git_cmd_def)

lemma tool_quiet [simp]:
  "quiet st (tool_error m st)" "quiet st (tool_warning m st)" "quiet st (tool_output m st)"
  by (simp_all add: quiet_def tool_error_def tool_warning_def tool_output_def)

lemma get_tracked_files_quiet:
  "quiet st (snd (get_tracked_files cfg fw tw st))"
  using get_tracked_files_evolves [of st cfg fw tw] by (simp add: evolves_def quiet_def)

lemma normalize_path_quiet:
  "quiet st (snd (normalize_path cfg p st))"
  using normalize_path_same_sets [of st cfg p] by (simp add: same_sets_def quiet_def)

lemma path_in_repo_quiet:
  "quiet st (snd (path_in_repo cfg fw tw path st))"
proof -
  obtain x st1 where G: "get_tracked_files cfg fw tw st = (x, st1)" by force
  have e1: "quiet st st1" using get_tracked_files_quiet [of st cfg fw tw] G by simp
  obtain y st2 where N: "normalize_path cfg path st1 = (y, st2)" by force
  have e2: "quiet st1 st2" using normalize_path_quiet [of st1 cfg path] N by simp
  show ?thesis using e1 e2 quiet_trans [OF e1 e2]
    by (auto simp: path_in_repo_def G N split: sum.splits)
qed

lemma added_markers_quiet:
  "quiet st (snd (added_markers cfg fw tw fnames acc st))"
proof (induction fnames arbitrary: acc st)
  case Nil show ?case by simp
next
  case (Cons f rest)
  obtain x st1 where P: "path_in_repo cfg fw tw f st = (x, st1)" by force
  have e1: "quiet st st1" using path_in_repo_quiet [of st cfg fw tw f] P by simp
  show ?case using e1 Cons.IH [of st1] by (cases x) (auto simp: P intro: quiet_trans)
qed

lemma get_diffs_quiet:
  "quiet st (snd (get_diffs cfg fw tw cw fnames st))"
proof (cases "current_branch_has_commits cw")
  case (Inl e) then show ?thesis by (simp add: get_diffs_def)
next
  case (Inr hc)
  define fs where "fs = (case fnames of None \<Rightarrow> [] | Some fs \<Rightarrow> fs)"
  obtain x st1 where A: "added_markers cfg fw tw fs [] st = (x, st1)" by force
  have e1: "quiet st st1" using added_markers_quiet [of st cfg fw tw fs "[]"] A by simp
  have e2: "\<And>m. quiet st (tool_error m st1)" using e1 by (simp add: quiet_def tool_error_def)
  show ?thesis using e1 e2
    by (auto simp: get_diffs_def Inr Let_def fs_def [symmetric] A split: sum.splits)
qed

lemma get_commit_message_quiet:
  "quiet st (snd (get_commit_message cfg cw d context st))"
  by (auto simp: get_commit_message_def Let_def split: sum.splits option.splits)

lemma add_files_environ:
  "environ (snd (add_files cw fnames st)) = environ st"
  by (induction fnames arbitrary: st) (auto split: option.splits)

lemma try_commit_environ:
  "environ (snd (try_commit cw cmd m st)) = environ st"
  by (auto simp: try_commit_def Let_def split: option.splits sum.splits)

lemma try_commit_environ_eq:
  "try_commit cw cmd m st = (res, st') \<Longrightarrow> environ st' = environ st"
  using try_commit_environ [of cw cmd m st] by simp

text \<open>The overrides and the \<open>finally\<close> block cancel.\<close>

lemma commit_under_overrides_environ:
  "environ (snd (commit_under_overrides cfg cw aider_edits u cmd m st)) = environ st"
  unfolding commit_under_overrides_def Let_def
  by (cases "attribute_committer cfg"; cases "aider_edits \<and> attribute_author cfg";
      cases "environ st ''GIT_COMMITTER_NAME''"; cases "environ st ''GIT_AUTHOR_NAME''")
     (auto simp: restore_env_def env_restore_def env_set_def env_del_def fun_upd_twist
           split: prod.splits option.splits dest!: try_commit_environ_eq)

lemma commit_with_message_environ:
  "environ (snd (commit_with_message cfg cw fnames aider_edits chosen st)) = environ st"
proof -
  have a: "\<And>fs. environ (snd (add_files cw fs st)) = environ st" by (rule add_files_environ)
  have c: "\<And>u cmd m s. environ (snd (commit_under_overrides cfg cw aider_edits u cmd m s)) = environ s"
    by (rule commit_under_overrides_environ)
  show ?thesis
    unfolding commit_with_message_def
    using a [of "abs_fnames cfg cw fnames"]
    by (auto simp: c split: sum.splits prod.splits option.splits if_splits)
qed


lemma commit_args_filter:
  "concat (map commit_args (filter is_git_cmd l)) = concat (map commit_args l)"
proof (induction l)
  case Nil show ?case by simp
next
  case (Cons ev l) then show ?case by (cases ev) simp_all
qed

lemma quiet_commit_cmds: "quiet st st' \<Longrightarrow> commit_cmds st' = commit_cmds st"
  unfolding quiet_def commit_cmds_def
  by (metis commit_args_filter)

lemma commit_cmds_simps [simp]:
  "commit_cmds (tool_error m st) = commit_cmds st"
  "commit_cmds (tool_output m st) = commit_cmds st"
  "commit_cmds (tool_warning m st) = commit_cmds st"
  "commit_cmds (git_cmd c args ok st) = commit_cmds st @ (if c = ''commit'' then [args] else [])"
  "commit_cmds (env_set k v st) = commit_cmds st"
  by (simp_all add: commit_cmds_def tool_error_def tool_output_def tool_warning_def git_cmd_def
      env_set_def)

lemma add_files_commit_cmds:
  "commit_cmds (snd (add_files cw fnames st)) = commit_cmds st"
  by (induction fnames arbitrary: st) (auto split: option.splits)

lemma try_commit_commit_cmds:
  "commit_cmds (snd (try_commit cw cmd m st)) = commit_cmds st @ [cmd]"
  by (auto simp: try_commit_def Let_def split: option.splits sum.splits)

lemma try_commit_fst: "fst (try_commit cw cmd m st) = fst (try_commit cw cmd m st')"
  by (auto simp: try_commit_def Let_def split: option.splits sum.splits)

lemma try_commit_eq:
  "try_commit cw cmd m st = (res, st') \<Longrightarrow>
     environ st' = environ st \<and> commit_cmds st' = commit_cmds st @ [cmd]
   \<and> res = fst (try_commit cw cmd m sx)"
  using try_commit_environ [of cw cmd m st] try_commit_commit_cmds [of cw cmd m st]
    try_commit_fst [of cw cmd m st sx]
  by simp

lemma restore_env_log:
  "log (snd (restore_env cfg ae oc oa st)) = log st"
  by (auto simp: restore_env_def env_restore_def env_set_def env_del_def split: option.splits)

lemma commit_cmds_cong: "log st' = log st \<Longrightarrow> commit_cmds st' = commit_cmds st"
  by (simp add: commit_cmds_def)

lemma commit_under_overrides_result:
  "fst (commit_under_overrides cfg cw aider_edits u cmd m st) = fst (try_commit cw cmd m st)
   \<and> commit_cmds (snd (commit_under_overrides cfg cw aider_edits u cmd m st))
       = commit_cmds st @ [cmd]"
  unfolding commit_under_overrides_def Let_def
  by (cases "attribute_committer cfg"; cases "aider_edits \<and> attribute_author cfg";
      cases "environ st ''GIT_COMMITTER_NAME''"; cases "environ st ''GIT_AUTHOR_NAME''")
     (auto simp: restore_env_def env_restore_def env_set_def env_del_def commit_cmds_def
           split: prod.splits option.splits dest!: try_commit_eq [where sx = st])

text \<open>
  Claim C2. Whatever \<open>commit\<close> is called with, whatever the repository, the backends
  and the commit command answer or raise, and whichever way the call ends, the process
  environment afterwards is the environment before the call: in particular
  \<open>GIT_COMMITTER_NAME\<close> and \<open>GIT_AUTHOR_NAME\<close> hold their earlier values, or are unset
  if they were unset.
\<close>

theorem commit_restores_environ:
  "environ (snd (commit cfg fw tw cw fnames context message aider_edits st)) = environ st"
proof -
  obtain d st1 where D: "get_diffs cfg fw tw cw fnames st = (d, st1)" by force
  have e1: "environ st1 = environ st"
    using get_diffs_quiet [of st cfg fw tw cw fnames] D by (simp add: quiet_def)
  have m: "\<And>dt. environ (snd (get_commit_message cfg cw dt context st1)) = environ st"
    using get_commit_message_quiet [of st1 cfg cw _ "context"] e1 by (simp add: quiet_def)
  have c: "\<And>ch s. environ s = environ st \<Longrightarrow>
      environ (snd (commit_with_message cfg cw fnames aider_edits ch s)) = environ st"
    using commit_with_message_environ by simp
  show ?thesis
    unfolding commit_def D
    using e1 m c
    by (auto split: sum.splits bool.splits prod.splits if_splits simp: prod_eq_iff)
qed

theorem commit_restores_environ_witness:
  "environ (snd (commit cfg_default w_plain tw_committed cw_commit_fails (Some [''a.txt''])
                   None (Some ''init'') True st_author_env)) ''GIT_AUTHOR_NAME'' = Some ''Bob''
   \<and> environ (snd (commit cfg_default w_plain tw_committed cw_commit_fails (Some [''a.txt''])
                   None (Some ''init'') True st_author_env)) ''GIT_COMMITTER_NAME'' = None"
  using commit_restores_environ [of cfg_default w_plain tw_committed cw_commit_fails
      "Some [''a.txt'']" None "Some ''init''" True st_author_env]
  by (simp add: st_author_env_def init_state_def)

section \<open>Committing: the message\<close>

lemma add_files_if:
  "(if fs \<noteq> [] then add_files cw fs st else (None, st)) = add_files cw fs st"
  by (cases fs) simp_all

lemma commit_with_message_unfold:
  assumes "attribute_message cfg aider_edits chosen = Inr attributed"
  shows "commit_with_message cfg cw fnames aider_edits chosen st =
     (case add_files cw (abs_fnames cfg cw fnames) st of
        (Some e, st1) \<Rightarrow> (Inl e, st1)
      | (None, st1) \<Rightarrow>
          (case w_user_name cw of
             Inl e \<Rightarrow> (Inl e, st1)
           | Inr u \<Rightarrow>
               commit_under_overrides cfg cw aider_edits u
                 (commit_cmd cfg (final_message attributed) (abs_fnames cfg cw fnames))
                 (final_message attributed) st1))"
  by (simp add: commit_with_message_def assms add_files_if)

lemma commit_with_message_cmds:
  assumes "attribute_message cfg aider_edits chosen = Inr attributed"
  shows "commit_cmds (snd (commit_with_message cfg cw fnames aider_edits chosen st)) =
     commit_cmds st @
       (if fst (add_files cw (abs_fnames cfg cw fnames) st) = None \<and> succeeds (w_user_name cw)
        then [commit_cmd cfg (final_message attributed) (abs_fnames cfg cw fnames)] else [])"
proof -
  obtain x st1 where A: "add_files cw (abs_fnames cfg cw fnames) st = (x, st1)" by force
  have c1: "commit_cmds st1 = commit_cmds st"
    using add_files_commit_cmds [of cw "abs_fnames cfg cw fnames" st] A by simp
  show ?thesis
    unfolding commit_with_message_unfold [OF assms] A
    by (cases x; cases "w_user_name cw")
       (auto simp: c1 commit_under_overrides_result succeeds_def)
qed


lemma commit_with_message_result:
  assumes "attribute_message cfg aider_edits chosen = Inr attributed"
    and "fst (add_files cw (abs_fnames cfg cw fnames) st) = None" and "w_user_name cw = Inr u"
  shows "fst (commit_with_message cfg cw fnames aider_edits chosen st) =
     fst (try_commit cw (commit_cmd cfg (final_message attributed) (abs_fnames cfg cw fnames))
            (final_message attributed) sx)"
proof -
  obtain st1 where A: "add_files cw (abs_fnames cfg cw fnames) st = (None, st1)"
    using assms(2) by (cases "add_files cw (abs_fnames cfg cw fnames) st") auto
  show ?thesis
    unfolding commit_with_message_unfold [OF assms(1)] A
    using try_commit_fst [of cw _ _ st1 sx]
    by (simp add: assms(3) commit_under_overrides_result)
qed

lemma attribute_message_spec:
  "attribute_message cfg aider_edits (Some m) = Inr (Some (spec_attributed cfg aider_edits m))"
  by (simp add: attribute_message_def spec_attributed_def)


lemma commit_with_message_raises:
  assumes "attribute_message cfg aider_edits chosen = Inl e"
  shows "commit_with_message cfg cw fnames aider_edits chosen st = (Inl e, st)"
  by (simp add: commit_with_message_def assms)

lemma attribute_message_None_cases:
  "attribute_message cfg aider_edits None =
     (if (aider_edits \<and> attribute_commit_message_author cfg)
         \<or> attribute_commit_message_committer cfg
      then Inl (Exn TypeError ''can only concatenate str (not NoneType) to str'')
      else Inr None)"
  by (simp add: attribute_message_def)

text \<open>Whatever \<open>commit\<close> sends as a commit command is sent by lines 179-236.\<close>

lemma commit_via_message:
  "commit_cmds (snd (commit cfg fw tw cw fnames context message aider_edits st)) = commit_cmds st
   \<or> (\<exists>chosen st2.
         commit cfg fw tw cw fnames context message aider_edits st
           = commit_with_message cfg cw fnames aider_edits chosen st2
         \<and> commit_cmds st2 = commit_cmds st
         \<and> (if truthy message then chosen = message
            else \<exists>d st1. get_commit_message cfg cw d context st1 = (Inr chosen, st2)))"
proof -
  obtain d st1 where D: "get_diffs cfg fw tw cw fnames st = (d, st1)" by force
  have q1: "commit_cmds st1 = commit_cmds st"
    using get_diffs_quiet [of st cfg fw tw cw fnames] D by (simp add: quiet_commit_cmds)
  obtain g st2 where G: "get_commit_message cfg cw (py_str (case d of Inr x \<Rightarrow> x)) context st1 = (g, st2)"
    by force
  have q2: "commit_cmds st2 = commit_cmds st"
    using get_commit_message_quiet [of st1 cfg cw _ "context"] G q1
    by (metis quiet_commit_cmds snd_conv)
  show ?thesis
  proof (cases "truthy message")
    case True
    then show ?thesis
      unfolding commit_def D
      using q1 by (auto split: sum.splits bool.splits)
  next
    case False
    then show ?thesis
      unfolding commit_def D
      using q1 q2 G by (auto split: sum.splits bool.splits)
  qed
qed

lemma commit_unfold:
  assumes "(fnames = None \<or> fnames = Some []) \<longrightarrow> w_is_dirty cw = Inr True"
    and "get_diffs cfg fw tw cw fnames st = (Inr (Some d), st1)" and "d \<noteq> []"
  shows "commit cfg fw tw cw fnames context message aider_edits st =
     (case (if truthy message then (Inr message, st1)
            else get_commit_message cfg cw d context st1) of
        (Inl e, st2) \<Rightarrow> (Inl e, st2)
      | (Inr chosen, st2) \<Rightarrow> commit_with_message cfg cw fnames aider_edits chosen st2)"
  using assms by (auto simp: commit_def)

lemma get_commit_message_None:
  "get_commit_message cfg cw d context st = (Inr None, st2) \<Longrightarrow>
   st2 = tool_error ''Failed to generate commit message!'' st"
  by (auto simp: get_commit_message_def Let_def split: sum.splits option.splits if_splits)

lemma attribute_message_None:
  "\<not> (aider_edits \<and> attribute_commit_message_author cfg) \<Longrightarrow>
   \<not> attribute_commit_message_committer cfg \<Longrightarrow>
   attribute_message cfg aider_edits None = Inr None"
  by (auto simp: attribute_message_def)


lemma get_commit_message_Some:
  "get_commit_message cfg cw d context st = (Inr (Some m), st2) \<Longrightarrow> st2 = st"
  by (auto simp: get_commit_message_def Let_def split: sum.splits option.splits if_splits)

lemma try_commit_outcome: "fst (try_commit cw cmd msg st) = commit_outcome cw cmd msg"
  by (auto simp: try_commit_def commit_outcome_def Let_def split: option.splits sum.splits)

text \<open>A call that gets past the early returns and chooses a message.\<close>

lemma commit_chosen:
  assumes "(fnames = None \<or> fnames = Some []) \<longrightarrow> w_is_dirty cw = Inr True"
    and "get_diffs cfg fw tw cw fnames st = (Inr (Some d), st1)" and "d \<noteq> []"
    and "(if truthy message then (Inr message, st1)
          else get_commit_message cfg cw d context st1) = (Inr chosen, st2)"
    and "attribute_message cfg aider_edits chosen = Inr attributed"
    and "fst (add_files cw (abs_fnames cfg cw fnames) st2) = None"
    and "w_user_name cw = Inr u"
  shows "commit_cmds (snd (commit cfg fw tw cw fnames context message aider_edits st))
           = commit_cmds st
             @ [commit_cmd cfg (final_message attributed) (abs_fnames cfg cw fnames)]
       \<and> fst (commit cfg fw tw cw fnames context message aider_edits st)
           = commit_outcome cw (commit_cmd cfg (final_message attributed)
                                  (abs_fnames cfg cw fnames)) (final_message attributed)"
proof -
  have q1: "commit_cmds st1 = commit_cmds st"
    using get_diffs_quiet [of st cfg fw tw cw fnames] assms(2) by (simp add: quiet_commit_cmds)
  have q2: "commit_cmds st2 = commit_cmds st1"
  proof (cases "truthy message")
    case True with assms(4) show ?thesis by simp
  next
    case False
    with assms(4) have "get_commit_message cfg cw d context st1 = (Inr chosen, st2)" by simp
    then show ?thesis
      using get_commit_message_quiet [of st1 cfg cw d "context"] by (simp add: quiet_commit_cmds)
  qed
  have c: "commit cfg fw tw cw fnames context message aider_edits st
           = commit_with_message cfg cw fnames aider_edits chosen st2"
    using commit_unfold [OF assms(1,2,3), of "context" message aider_edits] assms(4) by simp
  have r1: "commit_cmds (snd (commit cfg fw tw cw fnames context message aider_edits st))
           = commit_cmds st
             @ [commit_cmd cfg (final_message attributed) (abs_fnames cfg cw fnames)]"
    using commit_with_message_cmds [OF assms(5), of cw fnames st2] assms(6,7)
    by (simp add: c q1 q2 succeeds_def)
  have r2: "fst (commit cfg fw tw cw fnames context message aider_edits st)
           = commit_outcome cw (commit_cmd cfg (final_message attributed)
                                  (abs_fnames cfg cw fnames)) (final_message attributed)"
    using commit_with_message_result [OF assms(5,6,7), of st]
    by (simp add: c try_commit_outcome)
  from r1 r2 show ?thesis by simp
qed

text \<open>
  Claim C6. Take a call of \<open>commit\<close> that gets past the two early returns, chooses
  the message \<open>m\<close> (the explicit one, or else the one \<open>get_commit_message\<close> returns),
  stages without raising and can read the user name. It sends exactly one commit
  command, whose message is \<open>aider: m\<close> when the edit is agent-originated and
  author-message-attribution is enabled, or else when committer-message-attribution is
  enabled, and \<open>m\<close> otherwise (the placeholder if that text is empty): the prefix is
  there at most once. When the command succeeds the call returns the short hash and that
  message. And whatever a call of \<open>commit\<close> is given, it sends no commit command or
  exactly one, whose message is the chosen message treated this way, or the placeholder
  when no message was obtained.
\<close>

theorem commit_message_prefixed_once:
  assumes "(fnames = None \<or> fnames = Some []) \<longrightarrow> w_is_dirty cw = Inr True"
    and "get_diffs cfg fw tw cw fnames st = (Inr (Some d), st1)" and "d \<noteq> []"
    and "(if truthy message then (Inr message, st1)
          else get_commit_message cfg cw d context st1) = (Inr (Some m), st2)"
    and "fst (add_files cw (abs_fnames cfg cw fnames) st2) = None"
    and "w_user_name cw = Inr u"
  shows "commit_cmds (snd (commit cfg fw tw cw fnames context message aider_edits st))
           = commit_cmds st
             @ [[''-m'', spec_message cfg aider_edits m]
                @ (if git_commit_verify cfg then [] else [''--no-verify''])
                @ (if abs_fnames cfg cw fnames \<noteq> [] then [''--''] @ abs_fnames cfg cw fnames
                   else [''-a''])]
       \<and> fst (commit cfg fw tw cw fnames context message aider_edits st)
           = (case w_commit cw
                     ([''-m'', spec_message cfg aider_edits m]
                      @ (if git_commit_verify cfg then [] else [''--no-verify''])
                      @ (if abs_fnames cfg cw fnames \<noteq> []
                         then [''--''] @ abs_fnames cfg cw fnames else [''-a''])) of
                Some e \<Rightarrow> if any_git_error (exn_kind e) then Inr None else Inl e
              | None \<Rightarrow>
                  (case get_head_commit_sha_short cw of
                     Inl e \<Rightarrow> Inl e
                   | Inr commit_hash \<Rightarrow>
                       Inr (Some (commit_hash, spec_message cfg aider_edits m))))
       \<and> attribute_message cfg aider_edits (Some m)
           = Inr (Some (spec_attributed cfg aider_edits m))
       \<and> (commit_cmds (snd (commit cfg fw' tw' cw' fnames' context' message' aider_edits st'))
             = commit_cmds st'
           \<or> (\<exists>chosen.
                 (if truthy message' then chosen = message'
                  else \<exists>d' s1 s2. get_commit_message cfg cw' d' context' s1 = (Inr chosen, s2))
                 \<and> commit_cmds (snd (commit cfg fw' tw' cw' fnames' context' message'
                                       aider_edits st'))
                   = commit_cmds st'
                     @ [commit_cmd cfg
                          (case chosen of None \<Rightarrow> ''(no commit message provided)''
                           | Some m' \<Rightarrow> spec_message cfg aider_edits m')
                          (abs_fnames cfg cw' fnames')]))"
proof -
  have a: "attribute_message cfg aider_edits (Some m)
           = Inr (Some (spec_attributed cfg aider_edits m))"
    by (rule attribute_message_spec)
  have f: "final_message (Some (spec_attributed cfg aider_edits m)) = spec_message cfg aider_edits m"
    by (simp add: final_message_def spec_message_def)
  note K = commit_chosen [OF assms(1,2,3,4) a assms(5,6),
      unfolded f commit_outcome_def commit_cmd_def]
  have u: "commit_cmds (snd (commit cfg fw' tw' cw' fnames' context' message' aider_edits st'))
             = commit_cmds st'
           \<or> (\<exists>chosen.
                 (if truthy message' then chosen = message'
                  else \<exists>d' s1 s2. get_commit_message cfg cw' d' context' s1 = (Inr chosen, s2))
                 \<and> commit_cmds (snd (commit cfg fw' tw' cw' fnames' context' message'
                                       aider_edits st'))
                   = commit_cmds st'
                     @ [commit_cmd cfg
                          (case chosen of None \<Rightarrow> ''(no commit message provided)''
                           | Some m' \<Rightarrow> spec_message cfg aider_edits m')
                          (abs_fnames cfg cw' fnames')])"
  proof -
    from commit_via_message [of cfg fw' tw' cw' fnames' context' message' aider_edits st']
    show ?thesis
    proof
      assume "commit_cmds (snd (commit cfg fw' tw' cw' fnames' context' message' aider_edits st'))
              = commit_cmds st'"
      then show ?thesis by simp
    next
      assume "\<exists>chosen st2.
         commit cfg fw' tw' cw' fnames' context' message' aider_edits st'
           = commit_with_message cfg cw' fnames' aider_edits chosen st2
         \<and> commit_cmds st2 = commit_cmds st'
         \<and> (if truthy message' then chosen = message'
            else \<exists>d st1. get_commit_message cfg cw' d context' st1 = (Inr chosen, st2))"
      then obtain chosen s2 where
        c: "commit cfg fw' tw' cw' fnames' context' message' aider_edits st'
           = commit_with_message cfg cw' fnames' aider_edits chosen s2"
        and q: "commit_cmds s2 = commit_cmds st'"
        and o: "if truthy message' then chosen = message'
            else \<exists>d st1. get_commit_message cfg cw' d context' st1 = (Inr chosen, s2)"
        by blast
      have o': "if truthy message' then chosen = message'
                else \<exists>d' s1 s2. get_commit_message cfg cw' d' context' s1 = (Inr chosen, s2)"
        using o by (auto split: if_splits)
      show ?thesis
      proof (cases "attribute_message cfg aider_edits chosen")
        case (Inl e)
        from commit_with_message_raises [OF this] c q show ?thesis by simp
      next
        case (Inr attributed)
        have fm: "final_message attributed
                  = (case chosen of None \<Rightarrow> ''(no commit message provided)''
                     | Some m' \<Rightarrow> spec_message cfg aider_edits m')"
        proof (cases chosen)
          case None
          with Inr have "attributed = None"
            by (auto simp: attribute_message_def split: if_splits)
          with None show ?thesis by (simp add: final_message_def)
        next
          case (Some m')
          with Inr attribute_message_spec [of cfg aider_edits m']
          have "attributed = Some (spec_attributed cfg aider_edits m')" by simp
          with Some show ?thesis by (simp add: final_message_def spec_message_def)
        qed
        from commit_with_message_cmds [OF Inr, of cw' fnames' s2] c q fm o' show ?thesis
          by (auto split: if_splits)
      qed
    qed
  qed
  from K a u show ?thesis by simp
qed

theorem commit_message_prefixed_once_witness:
  "commit_cmds (snd (commit cfg_attributing w_plain tw_committed cw_silent (Some [''a.txt''])
                       None (Some ''init'') True init_state))
     = [[''-m'', ''aider: init'', ''--'', ''/repo/a.txt'']]
   \<and> fst (commit cfg_attributing w_plain tw_committed cw_silent (Some [''a.txt''])
            None (Some ''init'') True init_state)
     = Inr (Some (Some ''3f2a9c1'', ''aider: init''))"
proof -
  define st1 where
    "st1 = snd (get_diffs cfg_attributing w_plain tw_committed cw_silent (Some [''a.txt''])
                  init_state)"
  have d: "fst (get_diffs cfg_attributing w_plain tw_committed cw_silent (Some [''a.txt''])
                  init_state) = Inr (Some ''diff --git a/a.txt b/a.txt'')"
    by (simp add: commit_eval_defs eval_defs tw_committed_def cfg_attributing_def)
  have h1: "(Some [''a.txt''] = None \<or> Some [''a.txt''] = Some []) \<longrightarrow>
            w_is_dirty cw_silent = Inr True" by simp
  have h2: "get_diffs cfg_attributing w_plain tw_committed cw_silent (Some [''a.txt''])
              init_state = (Inr (Some ''diff --git a/a.txt b/a.txt''), st1)"
    using d by (simp add: st1_def prod_eq_iff)
  have h3: "''diff --git a/a.txt b/a.txt'' \<noteq> []" by simp
  have h4: "(if truthy (Some ''init'') then (Inr (Some ''init''), st1)
             else get_commit_message cfg_attributing cw_silent ''diff --git a/a.txt b/a.txt''
                    None st1) = (Inr (Some ''init''), st1)" by simp
  have ab: "abs_fnames cfg_attributing cw_silent (Some [''a.txt'']) = [''/repo/a.txt'']"
    by (simp add: abs_fnames_def cfg_attributing_def cfg_default_def cw_silent_def Path_def
        truediv_def str_path_def)
  have h5: "fst (add_files cw_silent (abs_fnames cfg_attributing cw_silent (Some [''a.txt'']))
                   st1) = None"
    unfolding ab by (simp add: cw_silent_def)
  have h6: "w_user_name cw_silent = Inr ''Ada''" by (simp add: cw_silent_def)
  have sm: "spec_message cfg_attributing True ''init'' = ''aider: init''"
    by (simp add: spec_message_def spec_attributed_def cfg_attributing_def)
  have cc: "commit_cmds init_state = []" by (simp add: commit_cmds_def init_state_def)
  have v: "git_commit_verify cfg_attributing" by (simp add: cfg_attributing_def cfg_default_def)
  note T = commit_message_prefixed_once [OF h1 h2 h3 h4 h5 h6, where aider_edits = True, unfolded ab sm cc]
  have t1: "commit_cmds (snd (commit cfg_attributing w_plain tw_committed cw_silent
                       (Some [''a.txt'']) None (Some ''init'') True init_state))
     = [[''-m'', ''aider: init'', ''--'', ''/repo/a.txt'']]"
    using T [THEN conjunct1] v by simp
  have t2: "fst (commit cfg_attributing w_plain tw_committed cw_silent (Some [''a.txt''])
            None (Some ''init'') True init_state)
     = Inr (Some (Some ''3f2a9c1'', ''aider: init''))"
    using T [THEN conjunct2, THEN conjunct1] v
    by (simp add: cw_silent_def get_head_commit_sha_short_def)
  from t1 t2 show ?thesis by (intro conjI)
qed

text \<open>
  Claim C1, as the code has it. Let \<open>commit\<close> be called without a message, past the
  two early returns (paths are given or the repository is dirty; the diff text is not
  empty), and let \<open>get_commit_message\<close> yield no text: it returns nothing, or a text
  that is empty once stripped. In the first case it has reported
  \<open>Failed to generate commit message!\<close>, in the second it has reported nothing. Either
  way \<open>commit\<close> does not abort: when no attribution prefix applies, staging raises
  nothing beyond \<open>ANY_GIT_ERROR\<close> and the user name can be read, exactly one commit
  command is sent, with the message \<open>(no commit message provided)\<close>; the call returns
  the short hash and that message when the command succeeds, returns absent when the
  command raises one of \<open>ANY_GIT_ERROR\<close>, and raises otherwise.
\<close>

theorem commit_without_message_uses_placeholder:
  assumes "\<not> truthy message"
    and "(fnames = None \<or> fnames = Some []) \<longrightarrow> w_is_dirty cw = Inr True"
    and "get_diffs cfg fw tw cw fnames st = (Inr (Some d), st1)" and "d \<noteq> []"
    and "get_commit_message cfg cw d context st1 = (Inr chosen, st2)"
    and "\<not> truthy chosen"
    and "\<not> (aider_edits \<and> attribute_commit_message_author cfg)"
    and "\<not> attribute_commit_message_committer cfg"
    and "fst (add_files cw (abs_fnames cfg cw fnames) st2) = None"
    and "w_user_name cw = Inr u"
  shows "(if chosen = None
          then log st2 = log st1 @ [ToolError ''Failed to generate commit message!'']
          else log st2 = log st1)
       \<and> commit_cmds (snd (commit cfg fw tw cw fnames context message aider_edits st))
           = commit_cmds st
             @ [commit_cmd cfg ''(no commit message provided)'' (abs_fnames cfg cw fnames)]
       \<and> fst (commit cfg fw tw cw fnames context message aider_edits st)
           = (case w_commit cw (commit_cmd cfg ''(no commit message provided)''
                                  (abs_fnames cfg cw fnames)) of
                Some e \<Rightarrow> if any_git_error (exn_kind e) then Inr None else Inl e
              | None \<Rightarrow>
                  (case get_head_commit_sha_short cw of
                     Inl e \<Rightarrow> Inl e
                   | Inr commit_hash \<Rightarrow>
                       Inr (Some (commit_hash, ''(no commit message provided)''))))"
proof -
  have l: "if chosen = None
          then log st2 = log st1 @ [ToolError ''Failed to generate commit message!'']
          else log st2 = log st1"
  proof (cases chosen)
    case None
    with assms(5) have "st2 = tool_error ''Failed to generate commit message!'' st1"
      using get_commit_message_None by simp
    with None show ?thesis by (simp add: tool_error_def)
  next
    case (Some m)
    with assms(5) have "st2 = st1" using get_commit_message_Some by simp
    with Some show ?thesis by simp
  qed
  have a: "attribute_message cfg aider_edits chosen = Inr chosen"
    using assms(7,8) by (auto simp: attribute_message_def)
  have f: "final_message chosen = ''(no commit message provided)''"
    using assms(6) by (simp add: final_message_def)
  have ch: "(if truthy message then (Inr message, st1)
          else get_commit_message cfg cw d context st1) = (Inr chosen, st2)"
    using assms(1,5) by simp
  note K = commit_chosen [OF assms(2,3,4) ch a assms(9,10), unfolded f commit_outcome_def]
  from l K show ?thesis by simp
qed

theorem commit_without_message_uses_placeholder_witness:
  "fst (get_commit_message cfg_default cw_silent ''diff --git a/a.txt b/a.txt'' None
            (snd (get_diffs cfg_default w_plain tw_committed cw_silent (Some [''a.txt''])
                    init_state)))
       = Inr None
   \<and> commit_cmds (snd (commit cfg_default w_plain tw_committed cw_silent (Some [''a.txt''])
                         None None False init_state))
       = [[''-m'', ''(no commit message provided)'', ''--'', ''/repo/a.txt'']]
   \<and> fst (commit cfg_default w_plain tw_committed cw_silent (Some [''a.txt''])
            None None False init_state)
       = Inr (Some (Some ''3f2a9c1'', ''(no commit message provided)''))
   \<and> fst (get_commit_message cfg_default cw_blank ''diff --git a/a.txt b/a.txt'' None
            (snd (get_diffs cfg_default w_plain tw_committed cw_blank (Some [''a.txt''])
                    init_state)))
       = Inr (Some [])
   \<and> fst (commit cfg_default w_plain tw_committed cw_blank (Some [''a.txt''])
            None None False init_state)
       = Inr (Some (Some ''3f2a9c1'', ''(no commit message provided)''))"
proof -
  have h1: "\<not> truthy None" by simp
  have h2: "\<And>cw. (Some [''a.txt''] = None \<or> Some [''a.txt''] = Some []) \<longrightarrow>
            w_is_dirty cw = Inr True" by simp
  have h4: "''diff --git a/a.txt b/a.txt'' \<noteq> []" by simp
  have h7: "\<not> (False \<and> attribute_commit_message_author cfg_default)" by simp
  have h8: "\<not> attribute_commit_message_committer cfg_default" by (simp add: cfg_default_def)
  have cc: "commit_cmds init_state = []" by (simp add: commit_cmds_def init_state_def)
  have cm: "commit_cmd cfg_default ''(no commit message provided)'' [''/repo/a.txt'']
            = [''-m'', ''(no commit message provided)'', ''--'', ''/repo/a.txt'']"
    by (simp add: commit_cmd_def cfg_default_def)
  \<comment> \<open>no backend answers\<close>
  define st1 where
    "st1 = snd (get_diffs cfg_default w_plain tw_committed cw_silent (Some [''a.txt'']) init_state)"
  define st2 where
    "st2 = snd (get_commit_message cfg_default cw_silent ''diff --git a/a.txt b/a.txt'' None st1)"
  have d: "fst (get_diffs cfg_default w_plain tw_committed cw_silent (Some [''a.txt'']) init_state)
     = Inr (Some ''diff --git a/a.txt b/a.txt'')"
    by (simp add: commit_eval_defs eval_defs tw_committed_def)
  have g: "fst (get_commit_message cfg_default cw_silent ''diff --git a/a.txt b/a.txt'' None st1)
     = Inr None"
    by (simp add: get_commit_message_def cw_silent_def model_silent_def Let_def)
  have h3: "get_diffs cfg_default w_plain tw_committed cw_silent (Some [''a.txt'']) init_state
            = (Inr (Some ''diff --git a/a.txt b/a.txt''), st1)"
    using d by (simp add: st1_def prod_eq_iff)
  have h5: "get_commit_message cfg_default cw_silent ''diff --git a/a.txt b/a.txt'' None st1
            = (Inr None, st2)"
    using g by (simp add: st2_def prod_eq_iff)
  have ab: "abs_fnames cfg_default cw_silent (Some [''a.txt'']) = [''/repo/a.txt'']"
    by (simp add: abs_fnames_def cfg_default_def cw_silent_def Path_def truediv_def str_path_def)
  have h9: "fst (add_files cw_silent (abs_fnames cfg_default cw_silent (Some [''a.txt''])) st2)
            = None"
    unfolding ab by (simp add: cw_silent_def)
  have h10: "w_user_name cw_silent = Inr ''Ada''" by (simp add: cw_silent_def)
  note T = commit_without_message_uses_placeholder [OF h1 h2 h3 h4 h5 h1 h7 h8 h9 h10, unfolded ab cm cc]
  have t2: "commit_cmds (snd (commit cfg_default w_plain tw_committed cw_silent (Some [''a.txt''])
                         None None False init_state))
       = [[''-m'', ''(no commit message provided)'', ''--'', ''/repo/a.txt'']]"
    using T [THEN conjunct2, THEN conjunct1] by simp
  have t3: "fst (commit cfg_default w_plain tw_committed cw_silent (Some [''a.txt''])
            None None False init_state)
       = Inr (Some (Some ''3f2a9c1'', ''(no commit message provided)''))"
    using T [THEN conjunct2, THEN conjunct2]
    by (simp add: cw_silent_def get_head_commit_sha_short_def)
  \<comment> \<open>a backend answers with white space\<close>
  define s1 where
    "s1 = snd (get_diffs cfg_default w_plain tw_committed cw_blank (Some [''a.txt'']) init_state)"
  define s2 where
    "s2 = snd (get_commit_message cfg_default cw_blank ''diff --git a/a.txt b/a.txt'' None s1)"
  have d': "fst (get_diffs cfg_default w_plain tw_committed cw_blank (Some [''a.txt'']) init_state)
     = Inr (Some ''diff --git a/a.txt b/a.txt'')"
    by (simp add: commit_eval_defs eval_defs tw_committed_def cw_blank_def)
  have g': "fst (get_commit_message cfg_default cw_blank ''diff --git a/a.txt b/a.txt'' None s1)
     = Inr (Some [])"
    by (simp add: get_commit_message_def cw_blank_def cw_silent_def model_blank_def Let_def
        strip_def is_space_def)
  have k3: "get_diffs cfg_default w_plain tw_committed cw_blank (Some [''a.txt'']) init_state
            = (Inr (Some ''diff --git a/a.txt b/a.txt''), s1)"
    using d' by (simp add: s1_def prod_eq_iff)
  have k5: "get_commit_message cfg_default cw_blank ''diff --git a/a.txt b/a.txt'' None s1
            = (Inr (Some []), s2)"
    using g' by (simp add: s2_def prod_eq_iff)
  have k6: "\<not> truthy (Some [])" by simp
  have ab': "abs_fnames cfg_default cw_blank (Some [''a.txt'']) = [''/repo/a.txt'']"
    by (simp add: abs_fnames_def cfg_default_def cw_blank_def cw_silent_def Path_def truediv_def
        str_path_def)
  have k9: "fst (add_files cw_blank (abs_fnames cfg_default cw_blank (Some [''a.txt''])) s2)
            = None"
    unfolding ab' by (simp add: cw_blank_def cw_silent_def)
  have k10: "w_user_name cw_blank = Inr ''Ada''" by (simp add: cw_blank_def cw_silent_def)
  note T' = commit_without_message_uses_placeholder [OF h1 h2 k3 h4 k5 k6 h7 h8 k9 k10, unfolded ab' cm cc]
  have t5: "fst (commit cfg_default w_plain tw_committed cw_blank (Some [''a.txt''])
            None None False init_state)
       = Inr (Some (Some ''3f2a9c1'', ''(no commit message provided)''))"
    using T' [THEN conjunct2, THEN conjunct2]
    by (simp add: cw_blank_def cw_silent_def get_head_commit_sha_short_def)
  from g [unfolded st1_def] t2 t3 g' [unfolded s1_def] t5 show ?thesis by (intro conjI)
qed

text \<open>
  The claim as written fails: with the file \<open>a.txt\<close> given, no message, a backend
  that never answers and no message attribution, \<open>commit\<close> sends a commit command with
  the placeholder and returns its hash.
\<close>

theorem commit_without_message_counterexample:
  "fst (get_commit_message cfg_default cw_silent ''diff --git a/a.txt b/a.txt'' None
          (snd (get_diffs cfg_default w_plain tw_committed cw_silent (Some [''a.txt''])
                  init_state)))
     = Inr None
   \<and> fst (commit cfg_default w_plain tw_committed cw_silent (Some [''a.txt''])
            None None False init_state)
       = Inr (Some (Some ''3f2a9c1'', ''(no commit message provided)''))
   \<and> commit_cmds (snd (commit cfg_default w_plain tw_committed cw_silent (Some [''a.txt''])
                         None None False init_state))
       = [[''-m'', ''(no commit message provided)'', ''--'', ''/repo/a.txt'']]"
  by (simp add: commit_eval_defs eval_defs tw_committed_def commit_cmds_def)


section \<open>Committing: exceptions that leave the method\<close>

text \<open>
  Claim C5 fails where the user name is looked up (line 205), outside every \<open>try\<close>:
  when \<open>git config --get user.name\<close> fails, the \<open>GitCommandError\<close> leaves \<open>commit\<close>,
  although the files have been staged by then.
\<close>

theorem commit_raises_without_identity:
  "fst (commit cfg_default w_plain tw_committed cw_no_identity (Some [''a.txt'']) None
          (Some ''init'') False init_state)
   = Inl (Exn GitCommandError ''git config --get user.name returned exit status 1'')"
  by (simp add: commit_eval_defs eval_defs tw_committed_def cw_no_identity_def)

section \<open>Creating a feature branch\<close>

lemma feature_branch_name_eq:
  "feature_branch_name timestamp sh sfx =
     take 100 (''aider/feature-'' @ timestamp @ ''-'' @ sh
               @ (if truthy sfx then ''-'' @ safe_suffix (py_str sfx) else []))"
  by (simp add: feature_branch_name_def Let_def)

lemma last_git_cmd_simps [simp]:
  "last_git_cmd (git_cmd c args ok st) = Some (GitCmd c args ok)"
  "last_git_cmd (tool_output m st) = last_git_cmd st"
  "last_git_cmd (tool_warning m st) = last_git_cmd st"
  "last_git_cmd (tool_error m st) = last_git_cmd st"
  by (simp_all add: last_git_cmd_def git_cmd_def tool_output_def tool_warning_def tool_error_def)

lemma log_simps [simp]:
  "log (git_cmd c args ok st) = log st @ [GitCmd c args ok]"
  "log (tool_output m st) = log st @ [ToolOutput m]"
  "log (tool_warning m st) = log st @ [ToolWarning m]"
  "log (tool_error m st) = log st @ [ToolError m]"
  by (simp_all add: git_cmd_def tool_output_def tool_warning_def tool_error_def)

lemma develop_branch_simps [simp]:
  "develop_branch (git_cmd c args ok st) = develop_branch st"
  "develop_branch (tool_output m st) = develop_branch st"
  "develop_branch (tool_warning m st) = develop_branch st"
  "develop_branch (tool_error m st) = develop_branch st"
  by (simp_all add: git_cmd_def tool_output_def tool_warning_def tool_error_def)

lemma checkout_branch_ok:
  assumes "w_repo_dirty fw = Inr False" and "w_checkout fw b = None"
  shows "checkout_branch fw b st =
     (None, tool_output (''Switched to branch '' @ quote b @ ''.'')
              (git_cmd ''checkout'' [b] True st))"
  using assms by (simp add: checkout_branch_def is_dirty_def)

lemma ensure_on_develop_ok:
  assumes "w_repo_dirty fw = Inr False" and "develop_branch st = Some dev" and "dev \<noteq> []"
    and "cur \<noteq> dev \<longrightarrow> w_checkout fw dev = None"
  shows "fst (ensure_on_develop fw cur st) = None
       \<and> develop_branch (snd (ensure_on_develop fw cur st)) = Some dev"
  using assms
  by (auto simp: ensure_on_develop_def checkout_develop_branch_def checkout_branch_ok)

lemma create_or_checkout_ok:
  assumes "w_repo_dirty fw = Inr False" and "w_branches bw = Inr bs"
    and "name \<in> set bs \<longrightarrow> w_checkout fw name = None"
    and "name \<notin> set bs \<longrightarrow> w_create_head fw name = None \<and> w_head_checkout fw name = None"
  shows "fst (create_or_checkout fw bw name st) = Inr name
       \<and> last_git_cmd (snd (create_or_checkout fw bw name st))
           = Some (GitCmd ''checkout'' [name] True)
       \<and> (name \<in> set bs \<longrightarrow>
             log (snd (create_or_checkout fw bw name st))
             = log st @ [ToolWarning (''Branch '' @ quote name @ '' already exists. Checking it out.''),
                         GitCmd ''checkout'' [name] True,
                         ToolOutput (''Switched to branch '' @ quote name @ ''.'')])
       \<and> (name \<notin> set bs \<longrightarrow>
             log (snd (create_or_checkout fw bw name st))
             = log st @ [GitCmd ''create_head'' [name] True, GitCmd ''checkout'' [name] True,
                         ToolOutput (''Created and switched to new branch '' @ quote name @ ''.'')])"
  using assms
  by (auto simp: create_or_checkout_def Let_def checkout_branch_ok)


lemma ensure_on_develop_log:
  assumes "w_repo_dirty fw = Inr False" and "develop_branch st = Some dev" and "dev \<noteq> []"
    and "cur \<noteq> dev \<longrightarrow> w_checkout fw dev = None"
  shows "filter is_git_cmd (log (snd (ensure_on_develop fw cur st)))
         = filter is_git_cmd (log st)
           @ (if cur \<noteq> dev then [GitCmd ''checkout'' [dev] True] else [])"
  using assms
  by (auto simp: ensure_on_develop_def checkout_develop_branch_def checkout_branch_ok)

lemma create_or_checkout_log:
  assumes "w_repo_dirty fw = Inr False" and "w_branches bw = Inr bs"
    and "name \<in> set bs \<longrightarrow> w_checkout fw name = None"
    and "name \<notin> set bs \<longrightarrow> w_create_head fw name = None \<and> w_head_checkout fw name = None"
  shows "filter is_git_cmd (log (snd (create_or_checkout fw bw name st)))
         = filter is_git_cmd (log st)
           @ (if name \<in> set bs then [GitCmd ''checkout'' [name] True]
              else [GitCmd ''create_head'' [name] True, GitCmd ''checkout'' [name] True])"
  using create_or_checkout_ok [OF assms, of st] by auto

lemma safe_suffix_latin1:
  "safe_suffix (''Caf'' @ [CHR 0xC9] @ '' na'' @ [CHR 0xEF] @ ''ve!'')
   = ''caf'' @ [CHR 0xE9] @ ''-na'' @ [CHR 0xEF] @ ''ve''"
  by (simp add: safe_suffix_def strip_hyphens_def is_word_def lower_def lower_char_def Let_def
      char_of_def bit_0)

text \<open>
  Claim C8, as the code has it. On a clean working tree, with the current branch
  readable, the develop branch set to a name and (if it is not the current branch)
  checked out first, \<open>create_feature_branch\<close> returns the name \<open>aider/feature-\<close>, the timestamp
  \<open>YYYYMMDD-HHMMSS\<close> of the local clock, a hyphen, the first six characters of the
  develop head's id (\<open>nohash\<close> if reading it raises an \<open>Exception\<close>) and, for a
  non-empty suffix, a hyphen and the sanitized suffix, the whole cut to 100 characters. If no branch has that name
  the branch is created and then checked out; if one has, a warning is issued and it is
  checked out without being created. These, after the checkout of the develop branch
  where it was needed, are the only commands sent, so the last one is the successful
  checkout of that name. (The commands are assumed to succeed.) Sanitizing replaces each
  run of characters that are neither word characters nor hyphens by one hyphen, strips
  hyphens at both ends and lower-cases: hyphens of the suffix itself are kept. Strings
  are over the code points below 256, and there the word characters and the lower-case
  forms are Unicode's: letters beyond ASCII are kept and lower-cased.
\<close>

theorem create_feature_branch_clean:
  assumes "w_repo_dirty fw = Inr False"
    and "w_active_branch bw = Inr cur
         \<or> (\<exists>e h. w_active_branch bw = Inl e \<and> w_head_object_hexsha bw = Inr h
                \<and> any_git_error (exn_kind e)
                \<and> (exn_kind e = TypeError \<or> contains ''detached'' (lower (exn_str e)))
                \<and> cur = take 7 h @ '' (Detached HEAD)'')"
    and "develop_branch st = Some dev" and "dev \<noteq> []"
    and "cur \<noteq> dev \<longrightarrow> w_checkout fw dev = None"
    and "sh = (case w_rev_hexsha fw dev of
                 Inr hexsha \<Rightarrow> take 6 hexsha
               | Inl e \<Rightarrow> ''nohash'')"
    and "\<forall>e. w_rev_hexsha fw dev = Inl e \<longrightarrow> is_Exception (exn_kind e)"
    and "w_branches bw = Inr bs"
    and "name = take 100 (''aider/feature-'' @ strftime (w_now_local fw) @ ''-'' @ sh
                          @ (if truthy sfx then ''-'' @ safe_suffix (py_str sfx) else []))"
    and "name \<in> set bs \<longrightarrow> w_checkout fw name = None"
    and "name \<notin> set bs \<longrightarrow> w_create_head fw name = None \<and> w_head_checkout fw name = None"
  shows "fst (create_feature_branch fw bw sfx st) = Inr name
       \<and> last_git_cmd (snd (create_feature_branch fw bw sfx st))
           = Some (GitCmd ''checkout'' [name] True)
       \<and> length name \<le> 100
       \<and> sent st (snd (create_feature_branch fw bw sfx st))
           = (if cur \<noteq> dev then [GitCmd ''checkout'' [dev] True] else [])
             @ (if name \<in> set bs then [GitCmd ''checkout'' [name] True]
                else [GitCmd ''create_head'' [name] True, GitCmd ''checkout'' [name] True])
       \<and> (name \<in> set bs \<longrightarrow>
            ToolWarning (''Branch '' @ quote name @ '' already exists. Checking it out.'')
              \<in> set (log (snd (create_feature_branch fw bw sfx st))))"
proof -
  have cb: "get_current_branch bw = Inr cur"
    using get_current_branch_readable [OF assms(2)] .
  have shh: "short_hash fw (Some dev) = Inr sh"
    using assms(6,7) by (auto simp: short_hash_def split: sum.splits)
  obtain st1 where E: "ensure_on_develop fw cur st = (None, st1)"
    and d1: "develop_branch st1 = Some dev"
    using ensure_on_develop_ok [OF assms(1,3,4,5)]
    by (cases "ensure_on_develop fw cur st") auto
  have n: "feature_branch_name (strftime (w_now_local fw)) sh sfx = name"
    by (simp add: feature_branch_name_eq assms(9))
  have c: "create_feature_branch fw bw sfx st = create_or_checkout fw bw name st1"
    by (simp add: create_feature_branch_def is_dirty_def assms(1) cb E d1 shh n)
  have l1: "filter is_git_cmd (log st1) = filter is_git_cmd (log st)
           @ (if cur \<noteq> dev then [GitCmd ''checkout'' [dev] True] else [])"
    using ensure_on_develop_log [OF assms(1,3,4,5)] E by simp
  note K = create_or_checkout_ok [OF assms(1,8,10,11), of st1]
  note L = create_or_checkout_log [OF assms(1,8,10,11), of st1]
  have len: "length name \<le> 100" by (simp add: assms(9))
  have s: "sent st (snd (create_feature_branch fw bw sfx st))
           = (if cur \<noteq> dev then [GitCmd ''checkout'' [dev] True] else [])
             @ (if name \<in> set bs then [GitCmd ''checkout'' [name] True]
                else [GitCmd ''create_head'' [name] True, GitCmd ''checkout'' [name] True])"
    unfolding sent_def c L l1 by simp
  show ?thesis
    unfolding c [symmetric] using K [folded c] s len by auto
qed

theorem create_feature_branch_clean_witness:
  "fst (create_feature_branch fw_clean w_master_develop (Some ''My Fix!'') st_resolved)
     = Inr ''aider/feature-20240102-030405-8c1f3a-my-fix''
   \<and> last_git_cmd (snd (create_feature_branch fw_clean w_master_develop (Some ''My Fix!'')
                          st_resolved))
     = Some (GitCmd ''checkout'' [''aider/feature-20240102-030405-8c1f3a-my-fix''] True)
   \<and> sent st_resolved (snd (create_feature_branch fw_clean w_master_develop (Some ''My Fix!'')
                              st_resolved))
     = [GitCmd ''checkout'' [''develop''] True,
        GitCmd ''create_head'' [''aider/feature-20240102-030405-8c1f3a-my-fix''] True,
        GitCmd ''checkout'' [''aider/feature-20240102-030405-8c1f3a-my-fix''] True]"
proof -
  have h1: "w_repo_dirty fw_clean = Inr False" by (simp add: fw_clean_def)
  have h2: "w_active_branch w_master_develop = Inr ''master''
         \<or> (\<exists>e h. w_active_branch w_master_develop = Inl e
                \<and> w_head_object_hexsha w_master_develop = Inr h
                \<and> any_git_error (exn_kind e)
                \<and> (exn_kind e = TypeError \<or> contains ''detached'' (lower (exn_str e)))
                \<and> ''master'' = take 7 h @ '' (Detached HEAD)'')"
    by (simp add: w_master_develop_def)
  have h3: "develop_branch st_resolved = Some ''develop''" by (simp add: st_resolved_def)
  have h4: "''develop'' \<noteq> []" by simp
  have h5: "''master'' \<noteq> ''develop'' \<longrightarrow> w_checkout fw_clean ''develop'' = None"
    by (simp add: fw_clean_def)
  have h6: "''8c1f3a'' = (case w_rev_hexsha fw_clean ''develop'' of
                 Inr hexsha \<Rightarrow> take 6 hexsha | Inl e \<Rightarrow> ''nohash'')"
    by (simp add: fw_clean_def)
  have h7: "\<forall>e. w_rev_hexsha fw_clean ''develop'' = Inl e \<longrightarrow> is_Exception (exn_kind e)"
    by (simp add: fw_clean_def)
  have h8: "w_branches w_master_develop = Inr [''master'', ''develop'']"
    by (simp add: w_master_develop_def)
  have h9: "''aider/feature-20240102-030405-8c1f3a-my-fix''
            = take 100 (''aider/feature-'' @ strftime (w_now_local fw_clean) @ ''-'' @ ''8c1f3a''
                @ (if truthy (Some ''My Fix!'') then ''-'' @ safe_suffix (py_str (Some ''My Fix!''))
                   else []))"
    by (simp add: fw_clean_def now_0304_def strftime_def pad4_def pad2_def digit_def
        safe_suffix_def strip_hyphens_def is_word_def lower_def lower_char_def Let_def
        char_of_def bit_0)
  have h10: "''aider/feature-20240102-030405-8c1f3a-my-fix'' \<in> set [''master'', ''develop'']
            \<longrightarrow> w_checkout fw_clean ''aider/feature-20240102-030405-8c1f3a-my-fix'' = None"
    by simp
  have h11: "''aider/feature-20240102-030405-8c1f3a-my-fix'' \<notin> set [''master'', ''develop'']
            \<longrightarrow> w_create_head fw_clean ''aider/feature-20240102-030405-8c1f3a-my-fix'' = None
              \<and> w_head_checkout fw_clean ''aider/feature-20240102-030405-8c1f3a-my-fix'' = None"
    by (simp add: fw_clean_def)
  note T = create_feature_branch_clean [OF h1 h2 h3 h4 h5 h6 h7 h8 h9 h10 h11]
  have t3: "sent st_resolved (snd (create_feature_branch fw_clean w_master_develop
                                     (Some ''My Fix!'') st_resolved))
     = [GitCmd ''checkout'' [''develop''] True,
        GitCmd ''create_head'' [''aider/feature-20240102-030405-8c1f3a-my-fix''] True,
        GitCmd ''checkout'' [''aider/feature-20240102-030405-8c1f3a-my-fix''] True]"
    using T [THEN conjunct2, THEN conjunct2, THEN conjunct2, THEN conjunct1] by simp
  from T [THEN conjunct1] T [THEN conjunct2, THEN conjunct1] t3 show ?thesis by (intro conjI)
qed

text \<open>
  The claim as written fails on the suffix \<open>My - Fix!\<close> with a local clock one hour
  ahead of UTC: the code keeps the hyphen between the two blanks and reads the local
  time, where the claim's name has one hyphen and the UTC time.
\<close>

theorem create_feature_branch_counterexample:
  "fst (create_feature_branch fw_clean w_master_develop (Some ''My - Fix!'') st_resolved)
     = Inr ''aider/feature-20240102-030405-8c1f3a-my---fix''
   \<and> spec_feature_branch_name (w_now_utc fw_clean) ''8c1f3a'' (Some ''My - Fix!'')
     = ''aider/feature-20240102-020405-8c1f3a-my-fix''"
  by (simp add: create_feature_branch_def is_dirty_def ensure_on_develop_def
      checkout_develop_branch_def checkout_branch_def create_or_checkout_def
      feature_branch_name_def short_hash_def get_current_branch_def
      spec_feature_branch_name_def spec_safe_suffix_def
      fw_clean_def w_master_develop_def st_resolved_def init_state_def now_0304_def
      strftime_def pad4_def pad2_def digit_def safe_suffix_def strip_hyphens_def is_word_def
      lower_def lower_char_def Let_def tool_output_def git_cmd_def char_of_def bit_0)

end

